theory Spec2Isabelle
  imports Complex_Main "HOL-Library.AList"
begin

section \<open>Python values, exceptions and dictionaries\<close>

text \<open>
  A shallow embedding of \<^verbatim>\<open>migrate_indices.py\<close>. The file system, the YAML parser, the
  search cluster client, the clock and \<^verbatim>\<open>time.sleep\<close> are the environment: every call
  the program makes to them and every line it logs is recorded in a trace, and what the
  environment answers is a parameter of the model. The command line is the one argument
  of \<^verbatim>\<open>migrate_indices\<close>. Not modelled: the text of the log lines (a line is its kind and
  the values it formats), the conversion of the elapsed time to floating-point seconds,
  and exceptions outside \<^verbatim>\<open>Exception\<close> such as a keyboard interrupt.
\<close>

text \<open>
  The values that cross the boundary to the search cluster client are dynamically
  typed: a response is whatever the client returns. They are modelled as JSON-like
  values; a dictionary is an association list read through \<open>map_of\<close>.
\<close>

datatype pyval =
    PNone
  | PBool bool
  | PInt int
  | PStr string
  | PList "pyval list"
  | PDict "(string \<times> pyval) list"

text \<open>Python truthiness, as used by \<^verbatim>\<open>if task_id:\<close> and \<^verbatim>\<open>if status['completed']:\<close>.\<close>

fun truthy :: "pyval \<Rightarrow> bool" where
  "truthy PNone = False"
| "truthy (PBool b) = b"
| "truthy (PInt i) = (i \<noteq> 0)"
| "truthy (PStr s) = (s \<noteq> [])"
| "truthy (PList xs) = (xs \<noteq> [])"
| "truthy (PDict d) = (d \<noteq> [])"

fun type_name :: "pyval \<Rightarrow> string" where
  "type_name PNone = ''NoneType''"
| "type_name (PBool b) = ''bool''"
| "type_name (PInt i) = ''int''"
| "type_name (PStr s) = ''str''"
| "type_name (PList xs) = ''list''"
| "type_name (PDict d) = ''dict''"

text \<open>
  Every exception the program can meet is an instance of \<^verbatim>\<open>Exception\<close>, which is
  what all its handlers catch. \<open>ExternalError\<close> stands for anything raised by the file
  system, the YAML parser or the client, with its message.
\<close>

datatype exn =
    KeyError string
  | TypeError string
  | AttributeError string
  | ExternalError string

definition quoted :: "string \<Rightarrow> string" where
  "quoted s = [CHR 0x27] @ s @ [CHR 0x27]"

text \<open>\<^verbatim>\<open>str(e)\<close>: a \<^verbatim>\<open>KeyError\<close> prints the repr of its key, the others their message.\<close>

fun exn_str :: "exn \<Rightarrow> string" where
  "exn_str (KeyError k) = quoted k"
| "exn_str (TypeError m) = m"
| "exn_str (AttributeError m) = m"
| "exn_str (ExternalError m) = m"

text \<open>\<^verbatim>\<open>d[k]\<close> on a dictionary: a missing key raises \<^verbatim>\<open>KeyError\<close>.\<close>

definition dict_getitem :: "(string \<times> 'v) list \<Rightarrow> string \<Rightarrow> exn + 'v" where
  "dict_getitem d k = (case map_of d k of None \<Rightarrow> Inl (KeyError k) | Some v \<Rightarrow> Inr v)"

text \<open>\<^verbatim>\<open>v[k]\<close> with a string key on an arbitrary value: only a dictionary can be indexed so.\<close>

fun py_getitem :: "pyval \<Rightarrow> string \<Rightarrow> exn + pyval" where
  "py_getitem (PDict d) k = dict_getitem d k"
| "py_getitem (PStr s) k = Inl (TypeError ''string indices must be integers'')"
| "py_getitem (PList xs) k = Inl (TypeError ''list indices must be integers or slices, not str'')"
| "py_getitem v k = Inl (TypeError (quoted (type_name v) @ '' object is not subscriptable''))"

text \<open>
  \<^verbatim>\<open>response.get\<close>: only a dictionary has the method; on any other value
  the attribute lookup raises.
\<close>

fun get_method :: "pyval \<Rightarrow> exn + (string \<times> pyval) list" where
  "get_method (PDict d) = Inr d"
| "get_method v =
     Inl (AttributeError (quoted (type_name v) @ '' object has no attribute '' @ quoted ''get''))"

definition dict_get :: "(string \<times> 'v) list \<Rightarrow> string \<Rightarrow> 'v \<Rightarrow> 'v" where
  "dict_get d k dflt = (case map_of d k of None \<Rightarrow> dflt | Some v \<Rightarrow> v)"

text \<open>
  \<^verbatim>\<open>task_ids\<close> maps a source index to its task id and keeps insertion order:
  \<^verbatim>\<open>task_ids[index] = task_id\<close> is \<open>AList.update\<close> (a present key keeps its place),
  \<^verbatim>\<open>task_ids.pop(index)\<close> raises \<^verbatim>\<open>KeyError\<close> on a missing key.
\<close>

type_synonym task_ids = "(string \<times> pyval) list"

definition dict_pop :: "string \<Rightarrow> task_ids \<Rightarrow> exn + task_ids" where
  "dict_pop k d = (if map_of d k = None then Inl (KeyError k) else Inr (AList.delete k d))"

section \<open>Configuration, log and environment\<close>

text \<open>
  The configuration mapping as \<^verbatim>\<open>yaml.safe_load\<close> returns it, with the shape of the
  four keys the program reads and the types its annotations give them. A key may be
  absent (\<open>None\<close>): reading it then raises \<^verbatim>\<open>KeyError\<close>.
\<close>

record config =
  es_target_config :: "(string \<times> pyval) list option"
  es_source_remote :: "(string \<times> string) list option"
  source_indices :: "string list option"
  target_index :: "string option"

datatype level = INFO | ERROR

text \<open>One constructor per \<^verbatim>\<open>logging\<close> call of the source, with the values it formats.\<close>

datatype msg =
    LoadedConfig string
  | LoadConfigFailed string exn
  | ClientInitialized pyval
  | ClientInitFailed exn
  | AttemptReindex string string string
  | ReindexStarted string string pyval
  | ReindexStartFailed string exn
  | CheckedStatus pyval bool
  | CheckStatusFailed pyval exn
  | TaskFailed string pyval
  | TaskCompleted string
  | TaskInProgress string
  | MigrationCompleted int
  | MigrationFailed exn

text \<open>
  The trace of a run, in the order of execution: log lines, the two client calls with
  their arguments (\<open>Reindex body wait_for_completion params\<close>, \<open>TasksGet task_id\<close>)
  and \<^verbatim>\<open>time.sleep\<close>.
\<close>

datatype event =
    Log level msg
  | Reindex pyval bool "(string \<times> string) list"
  | TasksGet pyval
  | Sleep nat

text \<open>
  The world outside the program. The client's answer to a call may depend on everything
  that happened before, so it is a function of the trace so far; \<open>clock\<close> is
  \<^verbatim>\<open>datetime.now()\<close> in microseconds.
\<close>

record env =
  read_yaml :: "string \<Rightarrow> exn + config"
  new_client :: "(string \<times> pyval) list \<Rightarrow> exn + unit"
  reindex :: "event list \<Rightarrow> pyval \<Rightarrow> bool \<Rightarrow> (string \<times> string) list \<Rightarrow> exn + pyval"
  tasks_get :: "event list \<Rightarrow> pyval \<Rightarrow> exn + pyval"
  clock :: "event list \<Rightarrow> int"

section \<open>The functions of migrate_indices.py\<close>

definition load_config :: "env \<Rightarrow> string \<Rightarrow> event list \<Rightarrow> (exn + config) \<times> event list" where
  "load_config E file_path tr =
     (case read_yaml E file_path of
        Inl e \<Rightarrow> (Inl e, tr @ [Log ERROR (LoadConfigFailed file_path e)])
      | Inr cfg \<Rightarrow> (Inr cfg, tr @ [Log INFO (LoadedConfig file_path)]))"

definition initialize_opensearch_client ::
  "env \<Rightarrow> config \<Rightarrow> event list \<Rightarrow> (exn + unit) \<times> event list" where
  "initialize_opensearch_client E cfg tr =
     (case (case es_target_config cfg of
              None \<Rightarrow> Inl (KeyError ''es_target_config'')
            | Some tc \<Rightarrow>
                (case new_client E tc of
                   Inl e \<Rightarrow> Inl e
                 | Inr u \<Rightarrow> dict_getitem tc ''hosts'')) of
        Inl e \<Rightarrow> (Inl e, tr @ [Log ERROR (ClientInitFailed e)])
      | Inr hosts \<Rightarrow> (Inr (), tr @ [Log INFO (ClientInitialized hosts)]))"

definition reindex_body :: "string \<Rightarrow> string \<Rightarrow> string \<Rightarrow> string \<Rightarrow> string \<Rightarrow> pyval" where
  "reindex_body host username password source_index target =
     PDict [(''source'', PDict [(''remote'', PDict [(''host'', PStr host),
                                                    (''username'', PStr username),
                                                    (''password'', PStr password)]),
                              (''index'', PStr source_index)]),
            (''dest'', PDict [(''index'', PStr target)])]"

definition reindex_params :: "(string \<times> string) list" where
  "reindex_params = [(''requests_per_second'', ''-1'')]"

text \<open>
  \<^verbatim>\<open>start_reindex_task\<close>: the log line and the body read the remote's keys outside the
  \<^verbatim>\<open>try\<close>, so a missing key raises; inside it, a failing call or a response without
  \<^verbatim>\<open>'task'\<close> is logged and turned into \<^verbatim>\<open>None\<close>.
\<close>

definition start_reindex_task ::
  "env \<Rightarrow> string \<Rightarrow> string \<Rightarrow> (string \<times> string) list \<Rightarrow> event list
     \<Rightarrow> (exn + pyval) \<times> event list" where
  "start_reindex_task E source_index target source_remote tr =
     (case dict_getitem source_remote ''host'' of
        Inl e \<Rightarrow> (Inl e, tr)
      | Inr host \<Rightarrow>
          (let tr1 = tr @ [Log INFO (AttemptReindex source_index host target)] in
           case dict_getitem source_remote ''username'' of
             Inl e \<Rightarrow> (Inl e, tr1)
           | Inr username \<Rightarrow>
               (case dict_getitem source_remote ''password'' of
                  Inl e \<Rightarrow> (Inl e, tr1)
                | Inr password \<Rightarrow>
                    (let body = reindex_body host username password source_index target;
                         tr2 = tr1 @ [Reindex body False reindex_params] in
                     case (case reindex E tr1 body False reindex_params of
                             Inl e \<Rightarrow> Inl e
                           | Inr response \<Rightarrow> py_getitem response ''task'') of
                       Inl e \<Rightarrow> (Inr PNone, tr2 @ [Log ERROR (ReindexStartFailed source_index e)])
                     | Inr task_id \<Rightarrow>
                         (Inr task_id,
                          tr2 @ [Log INFO (ReindexStarted source_index target task_id)])))))"

definition error_status :: "exn \<Rightarrow> (string \<times> pyval) list" where
  "error_status e = [(''completed'', PBool True), (''error'', PStr (exn_str e))]"

text \<open>
  \<^verbatim>\<open>check_task_status\<close> never raises: a failing query, and a response that is not a
  dictionary (its \<^verbatim>\<open>.get\<close> raises inside the \<^verbatim>\<open>try\<close>), give the error status.
  Otherwise the response itself is the status.
\<close>

definition check_task_status ::
  "env \<Rightarrow> pyval \<Rightarrow> event list \<Rightarrow> (string \<times> pyval) list \<times> event list" where
  "check_task_status E task_id tr =
     (let tr1 = tr @ [TasksGet task_id] in
      case (case tasks_get E tr task_id of
              Inl e \<Rightarrow> Inl e
            | Inr response \<Rightarrow> get_method response) of
        Inl e \<Rightarrow> (error_status e, tr1 @ [Log ERROR (CheckStatusFailed task_id e)])
      | Inr response \<Rightarrow>
          (response,
           tr1 @ [Log INFO (CheckedStatus task_id
                    (truthy (dict_get response ''completed'' (PBool False))))]))"

text \<open>The body of the \<^verbatim>\<open>for\<close> loop of the poll phase, for one entry of the snapshot.\<close>

definition poll_job ::
  "env \<Rightarrow> string \<Rightarrow> pyval \<Rightarrow> task_ids \<Rightarrow> event list \<Rightarrow> (exn + task_ids) \<times> event list" where
  "poll_job E index task_id tids tr =
     (case check_task_status E task_id tr of
        (status, tr1) \<Rightarrow>
          (case dict_getitem status ''completed'' of
             Inl e \<Rightarrow> (Inl e, tr1)
           | Inr c \<Rightarrow>
               if truthy c then
                 (let tr2 = tr1 @ [case map_of status ''error'' of
                                     Some err \<Rightarrow> Log ERROR (TaskFailed index err)
                                   | None \<Rightarrow> Log INFO (TaskCompleted index)] in
                  case dict_pop index tids of
                    Inl e \<Rightarrow> (Inl e, tr2)
                  | Inr tids' \<Rightarrow> (Inr tids', tr2))
               else (Inr tids, tr1 @ [Log INFO (TaskInProgress index)])))"

text \<open>
  \<^verbatim>\<open>for index, task_id in list(task_ids.items())\<close>: the loop runs over a snapshot while
  the dictionary itself is updated; an exception leaves the loop.
\<close>

fun poll_jobs ::
  "env \<Rightarrow> (string \<times> pyval) list \<Rightarrow> task_ids \<Rightarrow> event list \<Rightarrow> (exn + task_ids) \<times> event list" where
  "poll_jobs E [] tids tr = (Inr tids, tr)"
| "poll_jobs E ((index, task_id) # rest) tids tr =
     (case poll_job E index task_id tids tr of
        (Inl e, tr') \<Rightarrow> (Inl e, tr')
      | (Inr tids', tr') \<Rightarrow> poll_jobs E rest tids' tr')"

text \<open>One pass of the \<^verbatim>\<open>while\<close> body: sleep ten seconds, then poll the snapshot.\<close>

definition poll_cycle :: "env \<Rightarrow> task_ids \<Rightarrow> event list \<Rightarrow> (exn + task_ids) \<times> event list" where
  "poll_cycle E tids tr = poll_jobs E tids tids (tr @ [Sleep 10])"

text \<open>
  \<^verbatim>\<open>while task_ids:\<close> has no bound, so the loop is run for at most \<open>fuel\<close> passes.
  \<open>Finished\<close>: the dictionary became empty; \<open>Aborted\<close>: an exception left the loop;
  \<open>Unfinished\<close>: the passes were used up with jobs still active (the state reached
  is kept, so that properties of every prefix of an unbounded run can be stated).
\<close>

datatype loop_result =
    Finished "event list"
  | Aborted exn "event list"
  | Unfinished task_ids "event list"

fun poll_loop :: "nat \<Rightarrow> env \<Rightarrow> task_ids \<Rightarrow> event list \<Rightarrow> loop_result" where
  "poll_loop fuel E [] tr = Finished tr"
| "poll_loop 0 E (j # js) tr = Unfinished (j # js) tr"
| "poll_loop (Suc fuel) E (j # js) tr =
     (case poll_cycle E (j # js) tr of
        (Inl e, tr') \<Rightarrow> Aborted e tr'
      | (Inr tids', tr') \<Rightarrow> poll_loop fuel E tids' tr')"

text \<open>
  The submit loop: \<^verbatim>\<open>config['target_index']\<close> and \<^verbatim>\<open>config['es_source_remote']\<close>
  are read anew for every index; the task id is recorded only when it is truthy.
\<close>

fun submit_loop ::
  "env \<Rightarrow> config \<Rightarrow> string list \<Rightarrow> task_ids \<Rightarrow> event list \<Rightarrow> (exn + task_ids) \<times> event list" where
  "submit_loop E cfg [] tids tr = (Inr tids, tr)"
| "submit_loop E cfg (index # rest) tids tr =
     (case target_index cfg of
        None \<Rightarrow> (Inl (KeyError ''target_index''), tr)
      | Some target \<Rightarrow>
          (case es_source_remote cfg of
             None \<Rightarrow> (Inl (KeyError ''es_source_remote''), tr)
           | Some source_remote \<Rightarrow>
               (case start_reindex_task E index target source_remote tr of
                  (Inl e, tr') \<Rightarrow> (Inl e, tr')
                | (Inr task_id, tr') \<Rightarrow>
                    submit_loop E cfg rest
                      (if truthy task_id then AList.update index task_id tids else tids) tr')))"

text \<open>Lines 73 to 80: load the configuration, build the client, submit every index.\<close>

definition submit_phase :: "env \<Rightarrow> string \<Rightarrow> event list \<Rightarrow> (exn + task_ids) \<times> event list" where
  "submit_phase E config_path tr =
     (case load_config E config_path tr of
        (Inl e, tr1) \<Rightarrow> (Inl e, tr1)
      | (Inr cfg, tr1) \<Rightarrow>
          (case initialize_opensearch_client E cfg tr1 of
             (Inl e, tr2) \<Rightarrow> (Inl e, tr2)
           | (Inr es_target, tr2) \<Rightarrow>
               (case source_indices cfg of
                  None \<Rightarrow> (Inl (KeyError ''source_indices''), tr2)
                | Some indices \<Rightarrow> submit_loop E cfg indices [] tr2)))"

text \<open>
  \<^verbatim>\<open>migrate_indices\<close> catches every exception of its body and logs it, so it either
  returns (with the trace of the run) or is still polling when the fuel ends.
\<close>

datatype run = Returned "event list" | Polling task_ids "event list"

definition migrate_indices :: "nat \<Rightarrow> env \<Rightarrow> string \<Rightarrow> run" where
  "migrate_indices fuel E config_path =
     (let start_time = clock E [] in
      case submit_phase E config_path [] of
        (Inl e, tr) \<Rightarrow> Returned (tr @ [Log ERROR (MigrationFailed e)])
      | (Inr tids, tr) \<Rightarrow>
          (case poll_loop fuel E tids tr of
             Finished tr' \<Rightarrow>
               Returned (tr' @ [Log INFO (MigrationCompleted (clock E tr' - start_time))])
           | Aborted e tr' \<Rightarrow> Returned (tr' @ [Log ERROR (MigrationFailed e)])
           | Unfinished tids' tr' \<Rightarrow> Polling tids' tr'))"

section \<open>Observations on traces and results\<close>

fun sleep_of :: "event \<Rightarrow> nat" where
  "sleep_of (Sleep d) = d"
| "sleep_of ev = 0"

text \<open>The time spent in \<^verbatim>\<open>time.sleep\<close>, and the number of passes of the poll loop.\<close>

definition slept :: "event list \<Rightarrow> nat" where
  "slept tr = sum_list (map sleep_of tr)"

fun is_sleep :: "event \<Rightarrow> bool" where
  "is_sleep (Sleep d) = True"
| "is_sleep ev = False"

definition cycles :: "event list \<Rightarrow> nat" where
  "cycles tr = length (filter is_sleep tr)"

fun query_of :: "event \<Rightarrow> pyval list" where
  "query_of (TasksGet t) = [t]"
| "query_of ev = []"

text \<open>The task ids of the status queries issued, in order.\<close>

definition queries :: "event list \<Rightarrow> pyval list" where
  "queries tr = concat (map query_of tr)"

fun call_of :: "event \<Rightarrow> (pyval \<times> bool \<times> (string \<times> string) list) list" where
  "call_of (Reindex body w params) = [(body, w, params)]"
| "call_of ev = []"

text \<open>The arguments of the submit calls issued, in order.\<close>

definition reindex_calls :: "event list \<Rightarrow> (pyval \<times> bool \<times> (string \<times> string) list) list" where
  "reindex_calls tr = concat (map call_of tr)"

fun polled_index :: "event \<Rightarrow> string list" where
  "polled_index (Log l (TaskFailed i err)) = [i]"
| "polled_index (Log l (TaskCompleted i)) = [i]"
| "polled_index (Log l (TaskInProgress i)) = [i]"
| "polled_index ev = []"

text \<open>The indices named by the log lines of the poll phase.\<close>

definition polled_indices :: "event list \<Rightarrow> string list" where
  "polled_indices tr = concat (map polled_index tr)"

fun is_terminal :: "event \<Rightarrow> bool" where
  "is_terminal (Log l (TaskFailed i err)) = True"
| "is_terminal (Log l (TaskCompleted i)) = True"
| "is_terminal ev = False"


fun is_migration_failed :: "event \<Rightarrow> bool" where
  "is_migration_failed (Log l (MigrationFailed e)) = True"
| "is_migration_failed ev = False"

fun is_summary :: "event \<Rightarrow> bool" where
  "is_summary (Log l (MigrationCompleted t)) = True"
| "is_summary ev = False"

fun run_trace :: "run \<Rightarrow> event list" where
  "run_trace (Returned tr) = tr"
| "run_trace (Polling tids tr) = tr"

fun run_active :: "run \<Rightarrow> task_ids" where
  "run_active (Returned tr) = []"
| "run_active (Polling tids tr) = tids"

fun loop_trace :: "loop_result \<Rightarrow> event list" where
  "loop_trace (Finished tr) = tr"
| "loop_trace (Aborted e tr) = tr"
| "loop_trace (Unfinished tids tr) = tr"

fun loop_active :: "loop_result \<Rightarrow> task_ids" where
  "loop_active (Unfinished tids tr) = tids"
| "loop_active r = []"

text \<open>A run is halted when the run-level handler logged \<^verbatim>\<open>Migration failed\<close>.\<close>

definition halted :: "run \<Rightarrow> bool" where
  "halted r = list_ex is_migration_failed (run_trace r)"

text \<open>
  The states of a migration job as section 3 of the specification names them, read off
  the trace for the job of one source index: a started submission with a truthy task id
  makes it \<open>Submitted\<close>, a progress line keeps it there, a completion line ends it.
  Any other move is refused (\<open>None\<close>).
\<close>

datatype job_state = Pending | Submitted | Completed | Failed

fun job_step :: "string \<Rightarrow> job_state \<Rightarrow> event \<Rightarrow> job_state option" where
  "job_step i s (Log l (ReindexStarted j target t)) =
     (if j = i \<and> truthy t then (if s = Pending then Some Submitted else None) else Some s)"
| "job_step i s (Log l (TaskInProgress j)) =
     (if j = i then (if s = Submitted then Some Submitted else None) else Some s)"
| "job_step i s (Log l (TaskCompleted j)) =
     (if j = i then (if s = Submitted then Some Completed else None) else Some s)"
| "job_step i s (Log l (TaskFailed j err)) =
     (if j = i then (if s = Submitted then Some Failed else None) else Some s)"
| "job_step i s ev = Some s"

fun job_run :: "string \<Rightarrow> job_state \<Rightarrow> event list \<Rightarrow> job_state option" where
  "job_run i s [] = Some s"
| "job_run i s (ev # tr) = (case job_step i s ev of None \<Rightarrow> None | Some s' \<Rightarrow> job_run i s' tr)"

text \<open>
  A trace and an active set agree when the trace is a legal history of every job and
  the jobs it leaves \<open>Submitted\<close> are exactly those of the active set.
\<close>

definition coherent :: "task_ids \<Rightarrow> event list \<Rightarrow> bool" where
  "coherent tids tr \<longleftrightarrow>
     (\<forall>i. \<exists>s. job_run i Pending tr = Some s \<and> (s = Submitted \<longleftrightarrow> i \<in> fst ` set tids))"

section \<open>Sample configurations and environments\<close>

text \<open>The configuration of the scenario of section 8 of the specification.\<close>

definition sample_config :: config where
  "sample_config =
     \<lparr>es_target_config = Some [(''hosts'', PList [PStr ''https://target:9200''])],
      es_source_remote = Some [(''host'', ''https://source:9200''), (''username'', ''u''), (''password'', ''p'')],
      source_indices = Some [''logs-2023'', ''logs-2024''],
      target_index = Some ''logs-archive''\<rparr>"


text \<open>
  The scenario of section 8: both submissions succeed, the first pass of the poll loop
  finds both jobs in progress, the second finds the first completed and the second
  completed with an error.
\<close>

definition scenario_env :: env where
  "scenario_env =
     \<lparr>read_yaml = (\<lambda>p. Inr sample_config),
      new_client = (\<lambda>tc. Inr ()),
      reindex = (\<lambda>h body w ps.
         if body = reindex_body ''https://source:9200'' ''u'' ''p'' ''logs-2023'' ''logs-archive''
         then Inr (PDict [(''task'', PStr ''task-1'')])
         else Inr (PDict [(''task'', PStr ''task-2'')])),
      tasks_get = (\<lambda>h t.
         if slept h < 20 then Inr (PDict [(''completed'', PBool False)])
         else if t = PStr ''task-1'' then Inr (PDict [(''completed'', PBool True)])
         else Inr (PDict [(''completed'', PBool True), (''error'', PStr ''mapping conflict'')])),
      clock = (\<lambda>h. int (slept h) * 1000000)\<rparr>"

text \<open>A configuration that lists the same source index twice.\<close>

definition duplicate_config :: config where
  "duplicate_config = sample_config\<lparr>source_indices := Some [''logs-2023'', ''logs-2023'']\<rparr>"

text \<open>A cluster that numbers its tasks in the order of submission and never finishes them.\<close>

definition counting_env :: env where
  "counting_env =
     \<lparr>read_yaml = (\<lambda>p. Inr duplicate_config),
      new_client = (\<lambda>tc. Inr ()),
      reindex = (\<lambda>h body w ps.
         Inr (PDict [(''task'', PStr (if reindex_calls h = [] then ''task-1'' else ''task-2''))])),
      tasks_get = (\<lambda>h t. Inr (PDict [(''completed'', PBool False)])),
      clock = (\<lambda>h. int (slept h) * 1000000)\<rparr>"

text \<open>A cluster whose submit call succeeds and answers with an empty task id.\<close>

definition empty_id_env :: env where
  "empty_id_env =
     \<lparr>read_yaml = (\<lambda>p. Inr sample_config),
      new_client = (\<lambda>tc. Inr ()),
      reindex = (\<lambda>h body w ps. Inr (PDict [(''task'', PStr [])])),
      tasks_get = (\<lambda>h t. Inr (PDict [(''completed'', PBool True)])),
      clock = (\<lambda>h. int (slept h) * 1000000)\<rparr>"

text \<open>
  Three source indices, and a cluster that refuses the submission of the second with a
  transport error; the other two jobs are completed at the first poll.
\<close>

definition three_config :: config where
  "three_config =
     sample_config\<lparr>source_indices := Some [''logs-2022'', ''logs-2023'', ''logs-2024'']\<rparr>"

definition transport_error_env :: env where
  "transport_error_env =
     \<lparr>read_yaml = (\<lambda>p. Inr three_config),
      new_client = (\<lambda>tc. Inr ()),
      reindex = (\<lambda>h body w ps.
         if body = reindex_body ''https://source:9200'' ''u'' ''p'' ''logs-2023'' ''logs-archive''
         then Inl (ExternalError ''connection reset'')
         else Inr (PDict [(''task'', PInt (int (length (reindex_calls h)) + 1))])),
      tasks_get = (\<lambda>h t. Inr (PDict [(''completed'', PBool True)])),
      clock = (\<lambda>h. int (slept h) * 1000000)\<rparr>"

text \<open>
  A cluster that answers the second poll of the second job with a status that has no
  \<^verbatim>\<open>completed\<close> field.
\<close>

definition malformed_status_env :: env where
  "malformed_status_env =
     \<lparr>read_yaml = (\<lambda>p. Inr sample_config),
      new_client = (\<lambda>tc. Inr ()),
      reindex = (\<lambda>h body w ps.
         if body = reindex_body ''https://source:9200'' ''u'' ''p'' ''logs-2023'' ''logs-archive''
         then Inr (PDict [(''task'', PStr ''task-1'')])
         else Inr (PDict [(''task'', PStr ''task-2'')])),
      tasks_get = (\<lambda>h t.
         if slept h < 20 \<or> t = PStr ''task-1'' then Inr (PDict [(''completed'', PBool False)])
         else Inr (PDict [(''task'', PDict [])])),
      clock = (\<lambda>h. int (slept h) * 1000000)\<rparr>"




text \<open>The trace and the active set that the submit phase of the scenario leaves.\<close>

definition scenario_submit_trace :: "event list" where
  "scenario_submit_trace =
     [Log INFO (LoadedConfig ''config.yml''),
      Log INFO (ClientInitialized (PList [PStr ''https://target:9200''])),
      Log INFO (AttemptReindex ''logs-2023'' ''https://source:9200'' ''logs-archive''),
      Reindex (reindex_body ''https://source:9200'' ''u'' ''p'' ''logs-2023'' ''logs-archive'')
        False reindex_params,
      Log INFO (ReindexStarted ''logs-2023'' ''logs-archive'' (PStr ''task-1'')),
      Log INFO (AttemptReindex ''logs-2024'' ''https://source:9200'' ''logs-archive''),
      Reindex (reindex_body ''https://source:9200'' ''u'' ''p'' ''logs-2024'' ''logs-archive'')
        False reindex_params,
      Log INFO (ReindexStarted ''logs-2024'' ''logs-archive'' (PStr ''task-2''))]"

definition scenario_jobs :: task_ids where
  "scenario_jobs = [(''logs-2023'', PStr ''task-1''), (''logs-2024'', PStr ''task-2'')]"

text \<open>The first pass of the poll loop in the scenario: both jobs in progress.\<close>

definition scenario_first_pass :: "event list" where
  "scenario_first_pass =
     [Sleep 10,
      TasksGet (PStr ''task-1''), Log INFO (CheckedStatus (PStr ''task-1'') False),
      Log INFO (TaskInProgress ''logs-2023''),
      TasksGet (PStr ''task-2''), Log INFO (CheckedStatus (PStr ''task-2'') False),
      Log INFO (TaskInProgress ''logs-2024'')]"

section \<open>Auxiliary lemmas\<close>

subsection \<open>Observations distribute over traces\<close>

lemma slept_simps [simp]:
  "slept [] = 0" "slept (ev # tr) = sleep_of ev + slept tr" "slept (a @ b) = slept a + slept b"
  by (simp_all add: slept_def)

lemma cycles_simps [simp]:
  "cycles [] = 0" "cycles (ev # tr) = (if is_sleep ev then 1 else 0) + cycles tr"
  "cycles (a @ b) = cycles a + cycles b"
  by (simp_all add: cycles_def)

lemma queries_simps [simp]:
  "queries [] = []" "queries (ev # tr) = query_of ev @ queries tr"
  "queries (a @ b) = queries a @ queries b"
  by (simp_all add: queries_def)

lemma reindex_calls_simps [simp]:
  "reindex_calls [] = []" "reindex_calls (ev # tr) = call_of ev @ reindex_calls tr"
  "reindex_calls (a @ b) = reindex_calls a @ reindex_calls b"
  by (simp_all add: reindex_calls_def)

lemma polled_indices_simps [simp]:
  "polled_indices [] = []" "polled_indices (ev # tr) = polled_index ev @ polled_indices tr"
  "polled_indices (a @ b) = polled_indices a @ polled_indices b"
  by (simp_all add: polled_indices_def)


lemma job_run_append:
  "job_run i s (a @ b) = (case job_run i s a of None \<Rightarrow> None | Some s' \<Rightarrow> job_run i s' b)"
  by (induction a arbitrary: s) (simp_all split: option.splits)

subsection \<open>The status check and the poll step\<close>

lemma check_task_status_error:
  "tasks_get E tr t = Inl e \<Longrightarrow>
   check_task_status E t tr = (error_status e, tr @ [TasksGet t, Log ERROR (CheckStatusFailed t e)])"
  by (simp add: check_task_status_def)

lemma check_task_status_dict:
  "tasks_get E tr t = Inr (PDict d) \<Longrightarrow>
   check_task_status E t tr =
     (d, tr @ [TasksGet t, Log INFO (CheckedStatus t (truthy (dict_get d ''completed'' (PBool False))))])"
  by (simp add: check_task_status_def)

lemma check_task_status_shape:
  obtains (status) d where "tasks_get E tr t = Inr (PDict d)"
      "check_task_status E t tr =
         (d, tr @ [TasksGet t, Log INFO (CheckedStatus t (truthy (dict_get d ''completed'' (PBool False))))])"
  | (error) e where "check_task_status E t tr =
         (error_status e, tr @ [TasksGet t, Log ERROR (CheckStatusFailed t e)])"
proof (cases "tasks_get E tr t")
  case (Inl e)
  then show ?thesis using error check_task_status_error by blast
next
  case (Inr v)
  show ?thesis
  proof (cases v)
    case (PDict d)
    with Inr show ?thesis using status check_task_status_dict by blast
  qed (use Inr error in \<open>simp_all add: check_task_status_def\<close>)
qed

lemma error_status_simps [simp]:
  "dict_getitem (error_status e) ''completed'' = Inr (PBool True)"
  "map_of (error_status e) ''error'' = Some (PStr (exn_str e))"
  by (simp_all add: error_status_def dict_getitem_def)

text \<open>The four ways the body of the poll loop can end.\<close>

lemma poll_job_shape:
  obtains (malformed) ev where
      "poll_job E i t tids tr = (Inl (KeyError ''completed''), tr @ [TasksGet t, ev])"
      "\<exists>d. tasks_get E tr t = Inr (PDict d) \<and> map_of d ''completed'' = None"
      "\<exists>l b. ev = Log l (CheckedStatus t b)"
  | (pop_failed) ev fin where
      "poll_job E i t tids tr = (Inl (KeyError i), tr @ [TasksGet t, ev, fin])"
      "map_of tids i = None"
      "(\<exists>l b. ev = Log l (CheckedStatus t b)) \<or> (\<exists>l e. ev = Log l (CheckStatusFailed t e))"
      "(\<exists>err. fin = Log ERROR (TaskFailed i err)) \<or> fin = Log INFO (TaskCompleted i)"
  | (removed) ev fin where
      "poll_job E i t tids tr = (Inr (AList.delete i tids), tr @ [TasksGet t, ev, fin])"
      "map_of tids i \<noteq> None"
      "(\<exists>l b. ev = Log l (CheckedStatus t b)) \<or> (\<exists>l e. ev = Log l (CheckStatusFailed t e))"
      "(\<exists>err. fin = Log ERROR (TaskFailed i err)) \<or> fin = Log INFO (TaskCompleted i)"
  | (in_progress) ev where
      "poll_job E i t tids tr = (Inr tids, tr @ [TasksGet t, ev, Log INFO (TaskInProgress i)])"
      "\<exists>l b. ev = Log l (CheckedStatus t b)"
proof (cases rule: check_task_status_shape[of E tr t])
  case (status d)
  show ?thesis
  proof (cases "map_of d ''completed''")
    case None
    with status show ?thesis
      by (intro malformed) (auto simp: poll_job_def dict_getitem_def)
  next
    case (Some c)
    show ?thesis
    proof (cases "truthy c")
      case False
      with Some status show ?thesis
        by (intro in_progress) (auto simp: poll_job_def dict_getitem_def)
    next
      case True
      show ?thesis
      proof (cases "map_of tids i")
        case None
        with True Some status show ?thesis
          by (intro pop_failed) (auto simp: poll_job_def dict_getitem_def dict_pop_def Let_def split: option.splits)
      next
        case (Some a)
        with True \<open>map_of d ''completed'' = Some c\<close> status show ?thesis
          by (intro removed) (auto simp: poll_job_def dict_getitem_def dict_pop_def Let_def split: option.splits)
      qed
    qed
  qed
next
  case (error e)
  show ?thesis
  proof (cases "map_of tids i")
    case None
    with error show ?thesis
      by (intro pop_failed) (auto simp: poll_job_def dict_pop_def Let_def)
  next
    case (Some a)
    with error show ?thesis
      by (intro removed) (auto simp: poll_job_def dict_pop_def Let_def)
  qed
qed


subsection \<open>A pass over the snapshot\<close>

lemma poll_jobs_trace:
  "poll_jobs E snap tids tr = (r, tr') \<Longrightarrow>
   \<exists>s. tr' = tr @ s \<and> slept s = 0 \<and> cycles s = 0 \<and> reindex_calls s = [] \<and>
       set (queries s) \<subseteq> snd ` set snap \<and> set (polled_indices s) \<subseteq> fst ` set snap \<and>
       \<not> list_ex is_migration_failed s \<and> \<not> list_ex is_summary s \<and>
       (r \<noteq> Inr tids \<longrightarrow> r \<noteq> Inl (KeyError ''completed'') \<longrightarrow> list_ex is_terminal s)"
proof (induction snap arbitrary: tids tr)
  case Nil
  then show ?case by auto
next
  case (Cons p snap)
  obtain i t where p: "p = (i, t)" by (cases p)
  show ?case
  proof (cases rule: poll_job_shape[of E i t tids tr])
    case (malformed ev)
    with Cons.prems p show ?thesis by auto
  next
    case (pop_failed ev fin)
    with Cons.prems p show ?thesis by auto
  next
    case (removed ev fin)
    with Cons.prems p
    have "poll_jobs E snap (AList.delete i tids) (tr @ [TasksGet t, ev, fin]) = (r, tr')"
      by simp
    from Cons.IH[OF this] obtain s where s: "tr' = (tr @ [TasksGet t, ev, fin]) @ s" "slept s = 0"
      "cycles s = 0" "reindex_calls s = []" "set (queries s) \<subseteq> snd ` set snap"
      "set (polled_indices s) \<subseteq> fst ` set snap"
      "\<not> list_ex is_migration_failed s" "\<not> list_ex is_summary s"
      by blast
    with removed p show ?thesis
      by (intro exI[of _ "[TasksGet t, ev, fin] @ s"]) auto
  next
    case (in_progress ev)
    with Cons.prems p
    have "poll_jobs E snap tids (tr @ [TasksGet t, ev, Log INFO (TaskInProgress i)]) = (r, tr')"
      by simp
    from Cons.IH[OF this] obtain s where
      s: "tr' = (tr @ [TasksGet t, ev, Log INFO (TaskInProgress i)]) @ s" "slept s = 0"
      "cycles s = 0" "reindex_calls s = []" "set (queries s) \<subseteq> snd ` set snap"
      "set (polled_indices s) \<subseteq> fst ` set snap"
      "\<not> list_ex is_migration_failed s" "\<not> list_ex is_summary s"
      "r \<noteq> Inr tids \<longrightarrow> r \<noteq> Inl (KeyError ''completed'') \<longrightarrow> list_ex is_terminal s"
      by blast
    with in_progress p show ?thesis
      by (intro exI[of _ "[TasksGet t, ev, Log INFO (TaskInProgress i)] @ s"]) auto
  qed
qed





lemma poll_jobs_append:
  "poll_jobs E (a @ b) tids tr =
     (case poll_jobs E a tids tr of
        (Inl e, tr') \<Rightarrow> (Inl e, tr')
      | (Inr tids', tr') \<Rightarrow> poll_jobs E b tids' tr')"
proof (induction a arbitrary: tids tr)
  case Nil
  show ?case by simp
next
  case (Cons p a)
  obtain i t where p: "p = (i, t)" by (cases p)
  show ?case
    by (cases "poll_job E i t tids tr") (auto simp: p Cons.IH split: sum.splits)
qed

lemma delete_as_filter: "AList.delete i tids = filter (\<lambda>p. fst p \<noteq> i) tids"
  by (induction tids) auto

text \<open>A pass only removes entries, and only entries of its snapshot.\<close>

lemma poll_jobs_active:
  "poll_jobs E snap tids tr = (Inr tids', tr') \<Longrightarrow>
   \<exists>R. R \<subseteq> fst ` set snap \<and> tids' = filter (\<lambda>p. fst p \<notin> R) tids"
proof (induction snap arbitrary: tids tr)
  case Nil
  then show ?case by (auto intro: exI[of _ "{}"])
next
  case (Cons p snap)
  obtain i t where p: "p = (i, t)" by (cases p)
  show ?case
  proof (cases rule: poll_job_shape[of E i t tids tr])
    case (malformed ev)
    with Cons.prems p show ?thesis by simp
  next
    case (pop_failed ev fin)
    with Cons.prems p show ?thesis by simp
  next
    case (removed ev fin)
    with Cons.prems p
    have "poll_jobs E snap (AList.delete i tids) (tr @ [TasksGet t, ev, fin]) = (Inr tids', tr')"
      by simp
    from Cons.IH[OF this] obtain R where
      R: "R \<subseteq> fst ` set snap" "tids' = filter (\<lambda>p. fst p \<notin> R) (AList.delete i tids)"
      by blast
    have "tids' = filter (\<lambda>p. fst p \<notin> insert i R) tids"
      unfolding R(2) delete_as_filter by (auto intro: filter_cong)
    with R(1) p show ?thesis
      by (intro exI[of _ "insert i R"]) auto
  next
    case (in_progress ev)
    with Cons.prems p
    have "poll_jobs E snap tids (tr @ [TasksGet t, ev, Log INFO (TaskInProgress i)]) = (Inr tids', tr')"
      by simp
    from Cons.IH[OF this] p show ?thesis by auto
  qed
qed

lemma poll_jobs_subset:
  assumes "poll_jobs E snap tids tr = (Inr tids', tr')"
  shows "set tids' \<subseteq> set tids"
    and "distinct (map fst tids) \<Longrightarrow> distinct (map fst tids')"
    and "i \<notin> fst ` set snap \<Longrightarrow> map_of tids' i = map_of tids i"
proof -
  from poll_jobs_active[OF assms] obtain R where
    R: "R \<subseteq> fst ` set snap" "tids' = filter (\<lambda>p. fst p \<notin> R) tids"
    by blast
  show "set tids' \<subseteq> set tids" using R by auto
  show "distinct (map fst tids')" if "distinct (map fst tids)"
    using that R(2) by (simp add: distinct_map_filter)
  show "map_of tids' i = map_of tids i" if "i \<notin> fst ` set snap"
  proof -
    from that R(1) have "i \<notin> R" by auto
    then show ?thesis unfolding R(2) by (induction tids) auto
  qed
qed

text \<open>
  With statuses that carry the \<^verbatim>\<open>completed\<close> field, a pass over a snapshot of
  distinct keys that are all active raises nothing.
\<close>

lemma poll_jobs_no_abort:
  assumes wf: "\<And>h t d. tasks_get E h t = Inr (PDict d) \<Longrightarrow> map_of d ''completed'' \<noteq> None"
  shows "distinct (map fst snap) \<Longrightarrow> (\<forall>i\<in>fst ` set snap. map_of tids i \<noteq> None) \<Longrightarrow>
         \<exists>tids' tr'. poll_jobs E snap tids tr = (Inr tids', tr')"
proof (induction snap arbitrary: tids tr)
  case Nil
  show ?case by simp
next
  case (Cons p snap)
  obtain i t where p: "p = (i, t)" by (cases p)
  show ?case
  proof (cases rule: poll_job_shape[of E i t tids tr])
    case (malformed ev)
    with wf show ?thesis by blast
  next
    case (pop_failed ev fin)
    with Cons.prems p show ?thesis by simp
  next
    case (removed ev fin)
    from Cons.prems p have "\<forall>j\<in>fst ` set snap. map_of (AList.delete i tids) j \<noteq> None"
      by (auto simp: delete_conv')
    with Cons.IH[of "AList.delete i tids"] Cons.prems removed p show ?thesis by simp
  next
    case (in_progress ev)
    with Cons.IH[of tids] Cons.prems p show ?thesis by simp
  qed
qed

subsection \<open>The poll loop\<close>

lemma poll_loop_step:
  "tids \<noteq> [] \<Longrightarrow> poll_cycle E tids tr = (Inr tids', tr') \<Longrightarrow>
     poll_loop (Suc fuel) E tids tr = poll_loop fuel E tids' tr'"
  "tids \<noteq> [] \<Longrightarrow> poll_cycle E tids tr = (Inl e, tr') \<Longrightarrow>
     poll_loop (Suc fuel) E tids tr = Aborted e tr'"
  by (cases tids; simp)+

lemma poll_loop_more_fuel:
  "poll_loop j E tids tr = Unfinished tids1 tr1 \<Longrightarrow>
     poll_loop (j + m) E tids tr = poll_loop m E tids1 tr1"
  "poll_loop j E tids tr = Finished tr1 \<Longrightarrow> poll_loop (j + m) E tids tr = Finished tr1"
  "poll_loop j E tids tr = Aborted e tr1 \<Longrightarrow> poll_loop (j + m) E tids tr = Aborted e tr1"
  by (induction j E tids tr rule: poll_loop.induct; simp split: prod.splits sum.splits)+

lemma poll_loop_trace:
  "\<exists>s. loop_trace (poll_loop fuel E tids tr) = tr @ s \<and> slept s = 10 * cycles s \<and>
       reindex_calls s = [] \<and> set (queries s) \<subseteq> snd ` set tids \<and>
       set (polled_indices s) \<subseteq> fst ` set tids \<and>
       \<not> list_ex is_migration_failed s \<and> \<not> list_ex is_summary s \<and>
       set (loop_active (poll_loop fuel E tids tr)) \<subseteq> set tids"
proof (induction fuel E tids tr rule: poll_loop.induct)
  case (1 fuel E tr)
  show ?case by simp
next
  case (2 E j js tr)
  show ?case by simp
next
  case (3 fuel E j js tr)
  obtain r tr1 where c: "poll_cycle E (j # js) tr = (r, tr1)"
    by (cases "poll_cycle E (j # js) tr")
  then have "poll_jobs E (j # js) (j # js) (tr @ [Sleep 10]) = (r, tr1)"
    by (simp add: poll_cycle_def)
  from poll_jobs_trace[OF this] obtain s1 where
    s1: "tr1 = (tr @ [Sleep 10]) @ s1" "slept s1 = 0" "cycles s1 = 0" "reindex_calls s1 = []"
      "set (queries s1) \<subseteq> snd ` set (j # js)" "set (polled_indices s1) \<subseteq> fst ` set (j # js)"
      "\<not> list_ex is_migration_failed s1" "\<not> list_ex is_summary s1"
    by blast
  show ?case
  proof (cases r)
    case (Inl e)
    with c s1 show ?thesis
      by (intro exI[of _ "[Sleep 10] @ s1"]) simp
  next
    case (Inr tids')
    with c have sub: "set tids' \<subseteq> set (j # js)"
      using poll_jobs_subset(1)[of E "j # js" "j # js" "tr @ [Sleep 10]" tids' tr1]
      by (simp add: poll_cycle_def)
    from "3.IH"[OF c[symmetric, unfolded Inr] refl] obtain s2 where
      s2: "loop_trace (poll_loop fuel E tids' tr1) = tr1 @ s2" "slept s2 = 10 * cycles s2"
        "reindex_calls s2 = []" "set (queries s2) \<subseteq> snd ` set tids'"
        "set (polled_indices s2) \<subseteq> fst ` set tids'"
        "\<not> list_ex is_migration_failed s2" "\<not> list_ex is_summary s2"
        "set (loop_active (poll_loop fuel E tids' tr1)) \<subseteq> set tids'"
      by blast
    have "snd ` set tids' \<subseteq> snd ` set (j # js)" "fst ` set tids' \<subseteq> fst ` set (j # js)"
      using sub by blast+
    with c Inr s1 s2 sub show ?thesis
      by (intro exI[of _ "[Sleep 10] @ s1 @ s2"]) (simp, blast)
  qed
qed

lemma poll_cycle_distinct:
  "poll_cycle E tids tr = (Inr tids', tr') \<Longrightarrow> distinct (map fst tids) \<Longrightarrow> distinct (map fst tids')"
  unfolding poll_cycle_def by (rule poll_jobs_subset(2))

lemma poll_cycle_no_abort:
  assumes "\<forall>h t d. tasks_get E h t = Inr (PDict d) \<longrightarrow> map_of d ''completed'' \<noteq> None"
      and "distinct (map fst tids)"
  shows "\<exists>tids' tr'. poll_cycle E tids tr = (Inr tids', tr')"
  unfolding poll_cycle_def
  using poll_jobs_no_abort[of E tids tids "tr @ [Sleep 10]"] assms
  by (simp add: map_of_eq_None_iff)

lemma poll_loop_distinct:
  "distinct (map fst tids) \<Longrightarrow> distinct (map fst (loop_active (poll_loop fuel E tids tr)))"
proof (induction fuel E tids tr rule: poll_loop.induct)
  case (3 fuel E j js tr)
  obtain r tr1 where c: "poll_cycle E (j # js) tr = (r, tr1)"
    by (cases "poll_cycle E (j # js) tr")
  show ?case
  proof (cases r)
    case (Inl e)
    with c show ?thesis by simp
  next
    case (Inr tids')
    with c "3.prems" have "distinct (map fst tids')"
      using poll_cycle_distinct by blast
    with "3.IH"[OF c[symmetric, unfolded Inr] refl] c Inr show ?thesis by simp
  qed
qed simp_all

lemma poll_loop_no_abort:
  "\<forall>h t d. tasks_get E h t = Inr (PDict d) \<longrightarrow> map_of d ''completed'' \<noteq> None \<Longrightarrow>
   distinct (map fst tids) \<Longrightarrow> poll_loop fuel E tids tr \<noteq> Aborted e tr'"
proof (induction fuel E tids tr rule: poll_loop.induct)
  case (3 fuel E j js tr)
  from poll_cycle_no_abort[OF "3.prems", of tr] obtain tids1 tr1 where
    c: "poll_cycle E (j # js) tr = (Inr tids1, tr1)"
    by blast
  with "3.prems" have "distinct (map fst tids1)"
    using poll_cycle_distinct by blast
  with "3.IH"[OF c[symmetric] refl "3.prems"(1)] c show ?case by simp
qed simp_all











subsection \<open>The submit phase\<close>

lemma start_reindex_task_eq:
  assumes "map_of remote ''host'' = Some host"
      and "map_of remote ''username'' = Some username"
      and "map_of remote ''password'' = Some password"
  shows "start_reindex_task E i target remote tr =
     (case (case reindex E (tr @ [Log INFO (AttemptReindex i host target)])
                   (reindex_body host username password i target) False reindex_params of
              Inl e \<Rightarrow> Inl e
            | Inr response \<Rightarrow> py_getitem response ''task'') of
        Inl e \<Rightarrow>
          (Inr PNone,
           tr @ [Log INFO (AttemptReindex i host target),
                 Reindex (reindex_body host username password i target) False reindex_params,
                 Log ERROR (ReindexStartFailed i e)])
      | Inr task_id \<Rightarrow>
          (Inr task_id,
           tr @ [Log INFO (AttemptReindex i host target),
                 Reindex (reindex_body host username password i target) False reindex_params,
                 Log INFO (ReindexStarted i target task_id)]))"
  using assms by (simp add: start_reindex_task_def dict_getitem_def Let_def split: sum.splits)

text \<open>The three ways a submission can end.\<close>

lemma start_reindex_task_shape:
  obtains (key_missing) e s where
      "start_reindex_task E i target remote tr = (Inl e, tr @ s)"
      "s = [] \<or> (\<exists>host. s = [Log INFO (AttemptReindex i host target)])"
      "map_of remote ''host'' = None \<or> map_of remote ''username'' = None
         \<or> map_of remote ''password'' = None"
  | (failed) host username password e where
      "map_of remote ''host'' = Some host" "map_of remote ''username'' = Some username"
      "map_of remote ''password'' = Some password"
      "start_reindex_task E i target remote tr =
         (Inr PNone,
          tr @ [Log INFO (AttemptReindex i host target),
                Reindex (reindex_body host username password i target) False reindex_params,
                Log ERROR (ReindexStartFailed i e)])"
  | (started) host username password response task_id where
      "map_of remote ''host'' = Some host" "map_of remote ''username'' = Some username"
      "map_of remote ''password'' = Some password"
      "reindex E (tr @ [Log INFO (AttemptReindex i host target)])
         (reindex_body host username password i target) False reindex_params = Inr response"
      "py_getitem response ''task'' = Inr task_id"
      "start_reindex_task E i target remote tr =
         (Inr task_id,
          tr @ [Log INFO (AttemptReindex i host target),
                Reindex (reindex_body host username password i target) False reindex_params,
                Log INFO (ReindexStarted i target task_id)])"
proof (cases "map_of remote ''host''")
  case None
  then show ?thesis
    by (intro key_missing[of _ "[]"]) (simp_all add: start_reindex_task_def dict_getitem_def)
next
  case host: (Some host)
  show ?thesis
  proof (cases "map_of remote ''username''")
    case None
    with host show ?thesis
      by (intro key_missing[of _ "[Log INFO (AttemptReindex i host target)]"])
         (simp_all add: start_reindex_task_def dict_getitem_def)
  next
    case user: (Some username)
    show ?thesis
    proof (cases "map_of remote ''password''")
      case None
      with host user show ?thesis
        by (intro key_missing[of _ "[Log INFO (AttemptReindex i host target)]"])
           (simp_all add: start_reindex_task_def dict_getitem_def)
    next
      case pw: (Some password)
      note eq = start_reindex_task_eq[OF host user pw, of E i target tr]
      show ?thesis
      proof (cases "reindex E (tr @ [Log INFO (AttemptReindex i host target)])
                      (reindex_body host username password i target) False reindex_params")
        case (Inl e)
        with eq show ?thesis by (intro failed[OF host user pw]) simp
      next
        case (Inr response)
        show ?thesis
        proof (cases "py_getitem response ''task''")
          case (Inl e)
          with Inr eq show ?thesis by (intro failed[OF host user pw]) simp
        next
          case t: (Inr task_id)
          with Inr eq show ?thesis by (intro started[OF host user pw Inr t]) simp
        qed
      qed
    qed
  qed
qed

lemma submit_loop_trace:
  "submit_loop E cfg idxs tids tr = (r, tr') \<Longrightarrow>
   \<exists>s. tr' = tr @ s \<and> slept s = 0 \<and> cycles s = 0 \<and> queries s = [] \<and> polled_indices s = [] \<and>
       \<not> list_ex is_terminal s \<and> \<not> list_ex is_migration_failed s \<and> \<not> list_ex is_summary s"
proof (induction idxs arbitrary: tids tr)
  case Nil
  then show ?case by simp
next
  case (Cons i idxs)
  show ?case
  proof (cases "target_index cfg")
    case None
    with Cons.prems show ?thesis by simp
  next
    case target: (Some target)
    show ?thesis
    proof (cases "es_source_remote cfg")
      case None
      with target Cons.prems show ?thesis by simp
    next
      case remote: (Some remote)
      show ?thesis
      proof (cases rule: start_reindex_task_shape[of E i target remote tr])
        case (key_missing e s)
        with target remote Cons.prems show ?thesis by auto
      next
        case (failed host username password e)
        let ?s = "[Log INFO (AttemptReindex i host target),
                   Reindex (reindex_body host username password i target) False reindex_params,
                   Log ERROR (ReindexStartFailed i e)]"
        from failed target remote Cons.prems
        have "submit_loop E cfg idxs tids (tr @ ?s) = (r, tr')" by simp
        from Cons.IH[OF this] obtain s where "tr' = (tr @ ?s) @ s" "slept s = 0" "cycles s = 0"
          "queries s = []" "polled_indices s = []" "\<not> list_ex is_terminal s"
          "\<not> list_ex is_migration_failed s" "\<not> list_ex is_summary s"
          by blast
        then show ?thesis by (intro exI[of _ "?s @ s"]) simp
      next
        case (started host username password response task_id)
        let ?s = "[Log INFO (AttemptReindex i host target),
                   Reindex (reindex_body host username password i target) False reindex_params,
                   Log INFO (ReindexStarted i target task_id)]"
        from started target remote Cons.prems
        have "submit_loop E cfg idxs
                (if truthy task_id then AList.update i task_id tids else tids) (tr @ ?s) = (r, tr')"
          by simp
        from Cons.IH[OF this] obtain s where "tr' = (tr @ ?s) @ s" "slept s = 0" "cycles s = 0"
          "queries s = []" "polled_indices s = []" "\<not> list_ex is_terminal s"
          "\<not> list_ex is_migration_failed s" "\<not> list_ex is_summary s"
          by blast
        then show ?thesis by (intro exI[of _ "?s @ s"]) simp
      qed
    qed
  qed
qed

lemma submit_loop_keys:
  "submit_loop E cfg idxs tids tr = (Inr tids', tr') \<Longrightarrow> distinct (map fst tids) \<Longrightarrow>
   distinct (map fst tids') \<and> fst ` set tids' \<subseteq> fst ` set tids \<union> set idxs"
proof (induction idxs arbitrary: tids tr)
  case Nil
  then show ?case by simp
next
  case (Cons i idxs)
  from Cons.prems(1) obtain target remote where
    cfg: "target_index cfg = Some target" "es_source_remote cfg = Some remote"
    by (auto split: option.splits)
  show ?case
  proof (cases rule: start_reindex_task_shape[of E i target remote tr])
    case (key_missing e s)
    with cfg Cons.prems show ?thesis by simp
  next
    case (failed host username password e)
    with cfg Cons.prems Cons.IH[of tids] show ?thesis by auto
  next
    case (started host username password response task_id)
    let ?tids = "if truthy task_id then AList.update i task_id tids else tids"
    have d: "distinct (map fst ?tids)" using Cons.prems(2) by (simp add: distinct_update)
    have k: "fst ` set ?tids \<subseteq> insert i (fst ` set tids)" by (auto simp: dom_update)
    from started cfg Cons.prems(1) obtain tr1 where
      "submit_loop E cfg idxs ?tids tr1 = (Inr tids', tr')"
      by simp
    from Cons.IH[OF this d] have "distinct (map fst tids')"
      and "fst ` set tids' \<subseteq> fst ` set ?tids \<union> set idxs"
      by blast+
    with k show ?thesis unfolding set_simps by blast
  qed
qed

text \<open>
  An index whose submissions never return a truthy task id (the call raises, the
  response has no usable \<^verbatim>\<open>task\<close>, or the id is falsy) gets no entry.
\<close>

lemma submit_loop_no_entry:
  assumes "target_index cfg = Some target" and "es_source_remote cfg = Some remote"
      and "map_of remote ''host'' = Some host"
      and "map_of remote ''username'' = Some username"
      and "map_of remote ''password'' = Some password"
      and never: "\<forall>h response t.
             reindex E h (reindex_body host username password index target) False reindex_params
               = Inr response \<longrightarrow>
             py_getitem response ''task'' = Inr t \<longrightarrow> \<not> truthy t"
  shows "submit_loop E cfg idxs tids tr = (Inr tids', tr') \<Longrightarrow> index \<notin> fst ` set tids \<Longrightarrow>
         index \<notin> fst ` set tids'"
proof (induction idxs arbitrary: tids tr)
  case Nil
  then show ?case by simp
next
  case (Cons i idxs)
  show ?case
  proof (cases rule: start_reindex_task_shape[of E i target remote tr])
    case (key_missing e s)
    with assms(1,2) Cons.prems show ?thesis by simp
  next
    case (failed host' username' password' e)
    with assms(1,2) Cons.prems Cons.IH[of tids] show ?thesis by auto
  next
    case (started host' username' password' response task_id)
    let ?tids = "if truthy task_id then AList.update i task_id tids else tids"
    have "index \<notin> fst ` set ?tids"
    proof (cases "i = index")
      case True
      with never started(1-5) assms(3-5) have "\<not> truthy task_id" by auto
      with Cons.prems(2) show ?thesis by simp
    next
      case False
      with Cons.prems(2) show ?thesis by (auto simp: dom_update)
    qed
    moreover from started assms(1,2) Cons.prems(1) obtain tr1 where
      "submit_loop E cfg idxs ?tids tr1 = (Inr tids', tr')"
      by simp
    ultimately show ?thesis using Cons.IH[of ?tids] by blast
  qed
qed

text \<open>With the keys of the configuration present, every index is submitted, in order.\<close>

lemma submit_loop_calls:
  assumes "target_index cfg = Some target" and "es_source_remote cfg = Some remote"
      and "map_of remote ''host'' = Some host"
      and "map_of remote ''username'' = Some username"
      and "map_of remote ''password'' = Some password"
  shows "\<exists>tids' tr'. submit_loop E cfg idxs tids tr = (Inr tids', tr') \<and>
           reindex_calls tr' = reindex_calls tr @
             map (\<lambda>i. (reindex_body host username password i target, False, reindex_params)) idxs"
proof (induction idxs arbitrary: tids tr)
  case Nil
  show ?case by simp
next
  case (Cons i idxs)
  note eq = start_reindex_task_eq[OF assms(3-5), of E i target tr]
  show ?case
  proof (cases "case reindex E (tr @ [Log INFO (AttemptReindex i host target)])
                   (reindex_body host username password i target) False reindex_params of
                  Inl e \<Rightarrow> Inl e
                | Inr response \<Rightarrow> py_getitem response ''task''")
    case (Inl e)
    let ?tr = "tr @ [Log INFO (AttemptReindex i host target),
                 Reindex (reindex_body host username password i target) False reindex_params,
                 Log ERROR (ReindexStartFailed i e)]"
    from Cons.IH[of tids ?tr] obtain tids' tr' where
      "submit_loop E cfg idxs tids ?tr = (Inr tids', tr')"
      "reindex_calls tr' = reindex_calls ?tr @
         map (\<lambda>i. (reindex_body host username password i target, False, reindex_params)) idxs"
      by blast
    with eq Inl assms(1,2) show ?thesis by simp
  next
    case (Inr task_id)
    let ?tr = "tr @ [Log INFO (AttemptReindex i host target),
                 Reindex (reindex_body host username password i target) False reindex_params,
                 Log INFO (ReindexStarted i target task_id)]"
    let ?tids = "if truthy task_id then AList.update i task_id tids else tids"
    from Cons.IH[of ?tids ?tr] obtain tids' tr' where
      "submit_loop E cfg idxs ?tids ?tr = (Inr tids', tr')"
      "reindex_calls tr' = reindex_calls ?tr @
         map (\<lambda>i. (reindex_body host username password i target, False, reindex_params)) idxs"
      by blast
    with eq Inr assms(1,2) show ?thesis by simp
  qed
qed

text \<open>When every submission returns a truthy task id, distinct indices all get an entry.\<close>

lemma submit_loop_all_started:
  assumes "target_index cfg = Some target" and "es_source_remote cfg = Some remote"
      and "map_of remote ''host'' = Some host"
      and "map_of remote ''username'' = Some username"
      and "map_of remote ''password'' = Some password"
      and ok: "\<forall>h i. i \<in> J \<longrightarrow>
             (\<exists>d t. reindex E h (reindex_body host username password i target) False reindex_params
                      = Inr (PDict d) \<and> map_of d ''task'' = Some t \<and> truthy t)"
  shows "set idxs \<subseteq> J \<Longrightarrow> distinct idxs \<Longrightarrow> set idxs \<inter> fst ` set tids = {} \<Longrightarrow>
         \<exists>tids' tr'. submit_loop E cfg idxs tids tr = (Inr tids', tr') \<and>
            map fst tids' = map fst tids @ idxs"
proof (induction idxs arbitrary: tids tr)
  case Nil
  show ?case by simp
next
  case (Cons i idxs)
  from ok Cons.prems(1) obtain d t where
    r: "reindex E (tr @ [Log INFO (AttemptReindex i host target)])
          (reindex_body host username password i target) False reindex_params = Inr (PDict d)"
       "map_of d ''task'' = Some t" "truthy t"
    by (metis list.set_intros(1) subsetD)
  let ?tr = "tr @ [Log INFO (AttemptReindex i host target),
               Reindex (reindex_body host username password i target) False reindex_params,
               Log INFO (ReindexStarted i target t)]"
  have step: "submit_loop E cfg (i # idxs) tids tr =
                submit_loop E cfg idxs (AList.update i t tids) ?tr"
    using r assms(1,2) start_reindex_task_eq[OF assms(3-5), of E i target tr]
    by (simp add: dict_getitem_def)
  have keys: "map fst (AList.update i t tids) = map fst tids @ [i]"
    using Cons.prems(3) by (auto simp: update_keys)
  have "set idxs \<subseteq> J" "distinct idxs" using Cons.prems by auto
  moreover have "set idxs \<inter> fst ` set (AList.update i t tids) = {}"
    using Cons.prems(2,3) by (auto simp: dom_update)
  ultimately obtain tids' tr' where
    "submit_loop E cfg idxs (AList.update i t tids) ?tr = (Inr tids', tr')"
    "map fst tids' = map fst (AList.update i t tids) @ idxs"
    using Cons.IH[of "AList.update i t tids" ?tr] by blast
  with step keys show ?case by simp
qed

lemma submit_phase_ok:
  assumes "read_yaml E path = Inr cfg" and "es_target_config cfg = Some tc"
      and "new_client E tc = Inr u" and "map_of tc ''hosts'' = Some hosts"
      and "source_indices cfg = Some idxs"
  shows "submit_phase E path tr =
           submit_loop E cfg idxs []
             (tr @ [Log INFO (LoadedConfig path), Log INFO (ClientInitialized hosts)])"
  using assms
  by (simp add: submit_phase_def load_config_def initialize_opensearch_client_def dict_getitem_def)

text \<open>The four ways the submit phase can go.\<close>

lemma submit_phase_shape:
  obtains (load_failed) e where "read_yaml E path = Inl e"
      "submit_phase E path tr = (Inl e, tr @ [Log ERROR (LoadConfigFailed path e)])"
  | (client_failed) cfg e where "read_yaml E path = Inr cfg"
      "submit_phase E path tr =
         (Inl e, tr @ [Log INFO (LoadedConfig path), Log ERROR (ClientInitFailed e)])"
  | (no_indices) cfg hosts where "read_yaml E path = Inr cfg" "source_indices cfg = None"
      "submit_phase E path tr =
         (Inl (KeyError ''source_indices''),
          tr @ [Log INFO (LoadedConfig path), Log INFO (ClientInitialized hosts)])"
  | (submitting) cfg hosts idxs where "read_yaml E path = Inr cfg"
      "source_indices cfg = Some idxs"
      "submit_phase E path tr =
         submit_loop E cfg idxs []
           (tr @ [Log INFO (LoadedConfig path), Log INFO (ClientInitialized hosts)])"
proof (cases "read_yaml E path")
  case (Inl e)
  then show ?thesis by (intro load_failed) (simp_all add: submit_phase_def load_config_def)
next
  case (Inr cfg)
  show ?thesis
  proof (cases "initialize_opensearch_client E cfg (tr @ [Log INFO (LoadedConfig path)])")
    case (Pair r tr1)
    show ?thesis
    proof (cases r)
      case (Inl e)
      with Pair have "tr1 = tr @ [Log INFO (LoadedConfig path), Log ERROR (ClientInitFailed e)]"
        by (auto simp: initialize_opensearch_client_def split: sum.splits)
      with Inl Pair Inr show ?thesis
        by (intro client_failed) (simp_all add: submit_phase_def load_config_def)
    next
      case u: (Inr u)
      with Pair obtain hosts where
        tr1: "tr1 = tr @ [Log INFO (LoadedConfig path), Log INFO (ClientInitialized hosts)]"
        by (auto simp: initialize_opensearch_client_def split: sum.splits)
      show ?thesis
      proof (cases "source_indices cfg")
        case None
        with tr1 u Pair Inr show ?thesis
          by (intro no_indices) (simp_all add: submit_phase_def load_config_def)
      next
        case (Some idxs)
        with tr1 u Pair Inr show ?thesis
          by (intro submitting) (simp_all add: submit_phase_def load_config_def)
      qed
    qed
  qed
qed

lemma submit_phase_trace:
  "submit_phase E path tr = (r, tr') \<Longrightarrow>
   \<exists>s. tr' = tr @ s \<and> slept s = 0 \<and> cycles s = 0 \<and> queries s = [] \<and> polled_indices s = [] \<and>
       \<not> list_ex is_terminal s \<and> \<not> list_ex is_migration_failed s \<and> \<not> list_ex is_summary s"
proof (cases rule: submit_phase_shape[of E path tr])
  case (submitting cfg hosts idxs)
  assume "submit_phase E path tr = (r, tr')"
  with submitting have "submit_loop E cfg idxs []
           (tr @ [Log INFO (LoadedConfig path), Log INFO (ClientInitialized hosts)]) = (r, tr')"
    by simp
  from submit_loop_trace[OF this] obtain s where
    "tr' = (tr @ [Log INFO (LoadedConfig path), Log INFO (ClientInitialized hosts)]) @ s"
    "slept s = 0" "cycles s = 0" "queries s = []" "polled_indices s = []"
    "\<not> list_ex is_terminal s" "\<not> list_ex is_migration_failed s" "\<not> list_ex is_summary s"
    by blast
  then show ?thesis
    by (intro exI[of _ "[Log INFO (LoadedConfig path), Log INFO (ClientInitialized hosts)] @ s"])
       simp
qed auto

lemma submit_phase_distinct:
  "submit_phase E path tr = (Inr tids, tr') \<Longrightarrow> distinct (map fst tids)"
proof (cases rule: submit_phase_shape[of E path tr])
  case (submitting cfg hosts idxs)
  assume "submit_phase E path tr = (Inr tids, tr')"
  with submitting submit_loop_keys[of E cfg idxs "[]" _ tids tr'] show ?thesis by simp
qed auto

subsection \<open>Whole runs\<close>

text \<open>After the submit phase, a run is the poll loop followed by at most one log line.\<close>

lemma migrate_indices_polling:
  assumes "submit_phase E path [] = (Inr tids, tr)"
  shows "\<exists>s. run_trace (migrate_indices fuel E path) = loop_trace (poll_loop fuel E tids tr) @ s \<and>
           reindex_calls s = [] \<and> queries s = [] \<and> polled_indices s = [] \<and> cycles s = 0 \<and>
           slept s = 0 \<and> \<not> list_ex is_terminal s"
  using assms by (cases "poll_loop fuel E tids tr") (simp_all add: migrate_indices_def)

lemma migrate_indices_calls:
  assumes "submit_phase E path [] = (Inr tids, tr)"
  shows "reindex_calls (run_trace (migrate_indices fuel E path)) = reindex_calls tr"
proof -
  from migrate_indices_polling[OF assms, of fuel] obtain s where
    "run_trace (migrate_indices fuel E path) = loop_trace (poll_loop fuel E tids tr) @ s"
    "reindex_calls s = []"
    by blast
  moreover from poll_loop_trace[of fuel E tids tr] obtain s' where
    "loop_trace (poll_loop fuel E tids tr) = tr @ s'" "reindex_calls s' = []"
    by blast
  ultimately show ?thesis by simp
qed

lemma sample_config_simps [simp]:
  "es_target_config sample_config = Some [(''hosts'', PList [PStr ''https://target:9200''])]"
  "es_source_remote sample_config =
     Some [(''host'', ''https://source:9200''), (''username'', ''u''), (''password'', ''p'')]"
  "source_indices sample_config = Some [''logs-2023'', ''logs-2024'']"
  "target_index sample_config = Some ''logs-archive''"
  by (simp_all add: sample_config_def)

lemma duplicate_config_simps [simp]:
  "es_target_config duplicate_config = Some [(''hosts'', PList [PStr ''https://target:9200''])]"
  "es_source_remote duplicate_config =
     Some [(''host'', ''https://source:9200''), (''username'', ''u''), (''password'', ''p'')]"
  "source_indices duplicate_config = Some [''logs-2023'', ''logs-2023'']"
  "target_index duplicate_config = Some ''logs-archive''"
  by (simp_all add: duplicate_config_def)

lemmas run_defs =
  migrate_indices_def submit_phase_def load_config_def initialize_opensearch_client_def
  start_reindex_task_def dict_getitem_def poll_cycle_def poll_job_def check_task_status_def
  dict_get_def dict_pop_def error_status_def reindex_body_def reindex_params_def

lemma scenario_env_simps [simp]:
  "read_yaml scenario_env p = Inr sample_config"
  "new_client scenario_env tc = Inr ()"
  "clock scenario_env h = int (slept h) * 1000000"
  by (simp_all add: scenario_env_def)


lemma migrate_indices_poll_facts:
  assumes "submit_phase E path [] = (Inr tids, tr)"
  shows "set (run_active (migrate_indices fuel E path)) \<subseteq> set tids"
    and "set (queries (run_trace (migrate_indices fuel E path))) \<subseteq> snd ` set tids"
    and "set (polled_indices (run_trace (migrate_indices fuel E path))) \<subseteq> fst ` set tids"
    and "set tr \<subseteq> set (run_trace (migrate_indices fuel E path))"
proof -
  from migrate_indices_polling[OF assms, of fuel] obtain s where
    s: "run_trace (migrate_indices fuel E path) = loop_trace (poll_loop fuel E tids tr) @ s"
       "queries s = []" "polled_indices s = []"
    by blast
  from poll_loop_trace[of fuel E tids tr] obtain s' where
    s': "loop_trace (poll_loop fuel E tids tr) = tr @ s'"
        "set (queries s') \<subseteq> snd ` set tids" "set (polled_indices s') \<subseteq> fst ` set tids"
        "set (loop_active (poll_loop fuel E tids tr)) \<subseteq> set tids"
    by blast
  from submit_phase_trace[OF assms] have tr: "queries tr = []" "polled_indices tr = []"
    by auto
  show "set (run_active (migrate_indices fuel E path)) \<subseteq> set tids"
    using assms s'(4) by (cases "poll_loop fuel E tids tr") (simp_all add: migrate_indices_def)
  show "set (queries (run_trace (migrate_indices fuel E path))) \<subseteq> snd ` set tids"
    using s s' tr by simp
  show "set (polled_indices (run_trace (migrate_indices fuel E path))) \<subseteq> fst ` set tids"
    using s s' tr by simp
  show "set tr \<subseteq> set (run_trace (migrate_indices fuel E path))"
    using s s' by simp
qed


lemma submit_loop_falsy_step:
  assumes "target_index cfg = Some target" and "es_source_remote cfg = Some remote"
      and "map_of remote ''host'' = Some host"
      and "map_of remote ''username'' = Some username"
      and "map_of remote ''password'' = Some password"
      and "reindex E (tr @ [Log INFO (AttemptReindex index host target)])
             (reindex_body host username password index target) False reindex_params
             = Inr (PDict d)"
      and "map_of d ''task'' = Some t" and "\<not> truthy t"
  shows "submit_loop E cfg (index # rest) tids tr =
           submit_loop E cfg rest tids
             (tr @ [Log INFO (AttemptReindex index host target),
                    Reindex (reindex_body host username password index target) False reindex_params,
                    Log INFO (ReindexStarted index target t)])"
  using assms(1,2,6-8) start_reindex_task_eq[OF assms(3-5), of E index target tr]
  by (simp add: dict_getitem_def)


lemma submit_loop_falsy_logged:
  assumes "target_index cfg = Some target" and "es_source_remote cfg = Some remote"
      and "map_of remote ''host'' = Some host"
      and "map_of remote ''username'' = Some username"
      and "map_of remote ''password'' = Some password"
      and falsy: "\<forall>h. \<exists>d t. reindex E h (reindex_body host username password index target)
                          False reindex_params = Inr (PDict d)
                        \<and> map_of d ''task'' = Some t \<and> \<not> truthy t"
  shows "index \<in> set idxs \<Longrightarrow> submit_loop E cfg idxs tids tr = (r, tr') \<Longrightarrow>
         \<exists>t. \<not> truthy t \<and> Log INFO (ReindexStarted index target t) \<in> set tr'"
proof (induction idxs arbitrary: tids tr)
  case Nil
  then show ?case by simp
next
  case (Cons i idxs)
  show ?case
  proof (cases "i = index")
    case True
    from falsy obtain d t where r:
      "reindex E (tr @ [Log INFO (AttemptReindex index host target)])
         (reindex_body host username password index target) False reindex_params = Inr (PDict d)"
      "map_of d ''task'' = Some t" "\<not> truthy t"
      by blast
    from submit_loop_falsy_step[OF assms(1-5) r, of idxs tids] Cons.prems(2) True
    have "submit_loop E cfg idxs tids
             (tr @ [Log INFO (AttemptReindex index host target),
                    Reindex (reindex_body host username password index target) False reindex_params,
                    Log INFO (ReindexStarted index target t)]) = (r, tr')"
      by simp
    from submit_loop_trace[OF this] r(3) show ?thesis by auto
  next
    case False
    with Cons.prems(1) have in_rest: "index \<in> set idxs" by simp
    obtain v tr1 where "start_reindex_task E i target remote tr = (Inr v, tr1)"
      using start_reindex_task_eq[OF assms(3-5), of E i target tr] by (auto split: sum.splits)
    with Cons.prems(2) assms(1,2) obtain tids1 where
      "submit_loop E cfg idxs tids1 tr1 = (r, tr')"
      by auto
    from Cons.IH[OF in_rest this] show ?thesis .
  qed
qed

lemma three_config_simps [simp]:
  "es_target_config three_config = Some [(''hosts'', PList [PStr ''https://target:9200''])]"
  "es_source_remote three_config =
     Some [(''host'', ''https://source:9200''), (''username'', ''u''), (''password'', ''p'')]"
  "source_indices three_config = Some [''logs-2022'', ''logs-2023'', ''logs-2024'']"
  "target_index three_config = Some ''logs-archive''"
  by (simp_all add: three_config_def)

lemma transport_error_env_simps [simp]:
  "read_yaml transport_error_env p = Inr three_config"
  "new_client transport_error_env tc = Inr ()"
  by (simp_all add: transport_error_env_def)

lemma empty_id_env_simps [simp]:
  "read_yaml empty_id_env p = Inr sample_config"
  "new_client empty_id_env tc = Inr ()"
  by (simp_all add: empty_id_env_def)


lemma poll_job_malformed:
  assumes "tasks_get E tr task_id = Inr (PDict d)" and "map_of d ''completed'' = None"
  shows "poll_job E index task_id tids tr =
           (Inl (KeyError ''completed''),
            tr @ [TasksGet task_id, Log INFO (CheckedStatus task_id False)])"
  using assms by (simp add: poll_job_def check_task_status_dict dict_getitem_def dict_get_def)

lemma poll_job_no_abort:
  assumes "\<forall>h t d. tasks_get E h t = Inr (PDict d) \<longrightarrow> map_of d ''completed'' \<noteq> None"
      and "map_of tids index \<noteq> None"
  shows "\<exists>tids' tr'. poll_job E index task_id tids tr = (Inr tids', tr')"
proof (cases rule: poll_job_shape[of E index task_id tids tr])
  case (malformed ev)
  with assms(1) show ?thesis by metis
qed (use assms(2) in auto)

text \<open>Once the submit phase is through, well-formed statuses keep the run from halting.\<close>

lemma migrate_indices_not_halted:
  assumes sp: "submit_phase E path [] = (Inr tids, tr)"
      and wf: "\<forall>h t d. tasks_get E h t = Inr (PDict d) \<longrightarrow> map_of d ''completed'' \<noteq> None"
  shows "\<not> halted (migrate_indices fuel E path)"
    and "migrate_indices fuel E path = Returned tr' \<Longrightarrow> tr' \<noteq> [] \<and> is_summary (last tr')"
proof -
  from submit_phase_distinct[OF sp] have d: "distinct (map fst tids)" .
  from submit_phase_trace[OF sp] have tr: "\<not> list_ex is_migration_failed tr" by auto
  from poll_loop_trace[of fuel E tids tr] obtain s where
    s: "loop_trace (poll_loop fuel E tids tr) = tr @ s" "\<not> list_ex is_migration_failed s"
    by blast
  show "\<not> halted (migrate_indices fuel E path)"
  proof (cases "poll_loop fuel E tids tr")
    case (Finished tr1)
    with sp s tr show ?thesis by (auto simp: migrate_indices_def halted_def)
  next
    case (Aborted e tr1)
    with poll_loop_no_abort[OF wf d] show ?thesis by blast
  next
    case (Unfinished tids1 tr1)
    with sp s tr show ?thesis by (auto simp: migrate_indices_def halted_def)
  qed
  show "tr' \<noteq> [] \<and> is_summary (last tr')" if "migrate_indices fuel E path = Returned tr'"
  proof (cases "poll_loop fuel E tids tr")
    case (Finished tr1)
    with sp that show ?thesis by (auto simp: migrate_indices_def)
  next
    case (Aborted e tr1)
    with poll_loop_no_abort[OF wf d] show ?thesis by blast
  next
    case (Unfinished tids1 tr1)
    with sp that show ?thesis by (simp add: migrate_indices_def)
  qed
qed

lemma migrate_indices_aborted:
  assumes "submit_phase E path [] = (Inr tids0, tr0)"
      and "poll_loop fuel E tids0 tr0 = Aborted e tr'"
  shows "migrate_indices fuel E path = Returned (tr' @ [Log ERROR (MigrationFailed e)])"
    and "\<not> list_ex is_summary (run_trace (migrate_indices fuel E path))"
proof -
  show eq: "migrate_indices fuel E path = Returned (tr' @ [Log ERROR (MigrationFailed e)])"
    using assms by (simp add: migrate_indices_def)
  from submit_phase_trace[OF assms(1)] have "\<not> list_ex is_summary tr0" by auto
  moreover from poll_loop_trace[of fuel E tids0 tr0] assms(2) obtain s where
    "tr' = tr0 @ s" "\<not> list_ex is_summary s"
    by auto
  ultimately show "\<not> list_ex is_summary (run_trace (migrate_indices fuel E path))"
    using eq by simp
qed

lemma slept_scenario [simp]:
  "slept scenario_submit_trace = 0" "slept scenario_first_pass = 10"
  by (simp_all add: scenario_submit_trace_def scenario_first_pass_def)

lemma malformed_status_env_simps [simp]:
  "read_yaml malformed_status_env p = Inr sample_config"
  "new_client malformed_status_env tc = Inr ()"
  "tasks_get malformed_status_env h t =
     (if slept h < 20 \<or> t = PStr ''task-1'' then Inr (PDict [(''completed'', PBool False)])
      else Inr (PDict [(''task'', PDict [])]))"
  by (simp_all add: malformed_status_env_def)

lemma scenario_submit_phase:
  "submit_phase scenario_env ''config.yml'' [] = (Inr scenario_jobs, scenario_submit_trace)"
  "submit_phase malformed_status_env ''config.yml'' [] = (Inr scenario_jobs, scenario_submit_trace)"
  by (simp_all add: run_defs scenario_env_def malformed_status_env_def scenario_jobs_def
        scenario_submit_trace_def)

lemma malformed_first_pass:
  "poll_loop 1 malformed_status_env scenario_jobs scenario_submit_trace =
     Unfinished scenario_jobs (scenario_submit_trace @ scenario_first_pass)"
  by (simp add: scenario_jobs_def scenario_first_pass_def poll_cycle_def poll_job_def
        check_task_status_def dict_getitem_def dict_get_def)








lemma scenario_run:
  "migrate_indices 2 scenario_env ''config.yml'' =
     Returned (scenario_submit_trace @ scenario_first_pass @
       [Sleep 10,
        TasksGet (PStr ''task-1''), Log INFO (CheckedStatus (PStr ''task-1'') True),
        Log INFO (TaskCompleted ''logs-2023''),
        TasksGet (PStr ''task-2''), Log INFO (CheckedStatus (PStr ''task-2'') True),
        Log ERROR (TaskFailed ''logs-2024'' (PStr ''mapping conflict'')),
        Log INFO (MigrationCompleted 20000000)])"
  using scenario_submit_phase(1)
  by (simp add: migrate_indices_def numeral_2_eq_2 scenario_jobs_def scenario_first_pass_def
        poll_cycle_def poll_job_def check_task_status_def dict_getitem_def dict_get_def
        dict_pop_def scenario_env_def)

subsection \<open>Job histories\<close>

lemma job_run_snoc:
  "job_run i s (tr @ [ev]) = (case job_run i s tr of None \<Rightarrow> None | Some s' \<Rightarrow> job_step i s' ev)"
  by (simp add: job_run_append split: option.splits)

lemma job_run_neutral:
  "(\<And>ev s. ev \<in> set evs \<Longrightarrow> job_step i s ev = Some s) \<Longrightarrow>
     job_run i s0 (tr @ evs) = job_run i s0 tr"
proof (induction evs arbitrary: tr rule: rev_induct)
  case Nil
  show ?case by simp
next
  case (snoc ev evs)
  have "job_run i s0 ((tr @ evs) @ [ev]) = job_run i s0 (tr @ evs)"
    using snoc.prems[of ev] by (simp only: job_run_snoc) (simp split: option.splits)
  with snoc.IH[of tr] snoc.prems show ?case by simp
qed

text \<open>The submit loop keeps every job \<open>Pending\<close> or \<open>Submitted\<close>, in step with the dictionary.\<close>

lemma submit_loop_coherent:
  "submit_loop E cfg idxs tids tr = (r, tr') \<Longrightarrow> distinct idxs \<Longrightarrow>
   set idxs \<inter> fst ` set tids = {} \<Longrightarrow>
   (\<forall>i. job_run i Pending tr = Some (if i \<in> fst ` set tids then Submitted else Pending)) \<Longrightarrow>
   (\<forall>i. \<exists>s. job_run i Pending tr' = Some s) \<and>
   (\<forall>tids'. r = Inr tids' \<longrightarrow>
      (\<forall>i. job_run i Pending tr' = Some (if i \<in> fst ` set tids' then Submitted else Pending)))"
proof (induction idxs arbitrary: tids tr)
  case Nil
  then show ?case by auto
next
  case (Cons j idxs)
  show ?case
  proof (cases "target_index cfg")
    case None
    with Cons.prems show ?thesis by auto
  next
    case target: (Some target)
    show ?thesis
    proof (cases "es_source_remote cfg")
      case None
      with target Cons.prems show ?thesis by auto
    next
      case remote: (Some remote)
      show ?thesis
      proof (cases rule: start_reindex_task_shape[of E j target remote tr])
        case (key_missing e s)
        have "job_run i Pending (tr @ s) = job_run i Pending tr" for i
          using key_missing(2) by (intro job_run_neutral) auto
        with key_missing target remote Cons.prems show ?thesis by auto
      next
        case (failed host username password e)
        let ?s = "[Log INFO (AttemptReindex j host target),
                   Reindex (reindex_body host username password j target) False reindex_params,
                   Log ERROR (ReindexStartFailed j e)]"
        have n: "job_run i Pending (tr @ ?s) = job_run i Pending tr" for i
          by (intro job_run_neutral) auto
        from failed target remote Cons.prems(1)
        have "submit_loop E cfg idxs tids (tr @ ?s) = (r, tr')" by simp
        moreover have "distinct idxs" "set idxs \<inter> fst ` set tids = {}"
          using Cons.prems(2,3) by auto
        moreover have "\<forall>i. job_run i Pending (tr @ ?s) =
                          Some (if i \<in> fst ` set tids then Submitted else Pending)"
          using n Cons.prems(4) by simp
        ultimately show ?thesis by (rule Cons.IH)
      next
        case (started host username password response task_id)
        let ?s = "[Log INFO (AttemptReindex j host target),
                   Reindex (reindex_body host username password j target) False reindex_params]"
        let ?ev = "Log INFO (ReindexStarted j target task_id)"
        let ?tids = "if truthy task_id then AList.update j task_id tids else tids"
        have n: "job_run i Pending (tr @ ?s) = job_run i Pending tr" for i
          by (intro job_run_neutral) auto
        have jout: "j \<notin> fst ` set tids" "j \<notin> set idxs" using Cons.prems(2,3) by auto
        have st: "job_run i Pending ((tr @ ?s) @ [?ev]) =
                    Some (if i \<in> fst ` set ?tids then Submitted else Pending)" for i
          unfolding job_run_snoc n using Cons.prems(4) jout(1)
          by (auto simp: dom_update)
        from started target remote Cons.prems(1)
        have "submit_loop E cfg idxs ?tids ((tr @ ?s) @ [?ev]) = (r, tr')" by simp
        moreover have "distinct idxs" using Cons.prems(2) by simp
        moreover have "set idxs \<inter> fst ` set ?tids = {}"
          using Cons.prems(3) jout(2) by (auto simp: dom_update)
        moreover have "\<forall>i. job_run i Pending ((tr @ ?s) @ [?ev]) =
                          Some (if i \<in> fst ` set ?tids then Submitted else Pending)"
          using st by blast
        ultimately show ?thesis by (rule Cons.IH)
      qed
    qed
  qed
qed

lemma coherent_neutral:
  "coherent tids tr \<Longrightarrow> (\<And>ev i s. ev \<in> set evs \<Longrightarrow> job_step i s ev = Some s) \<Longrightarrow>
     coherent tids (tr @ evs)"
  unfolding coherent_def using job_run_neutral[of evs] by metis

lemma coherent_accepts: "coherent tids tr \<Longrightarrow> \<exists>s. job_run i Pending tr = Some s"
  unfolding coherent_def by blast

lemma accepts_neutral:
  "\<forall>i. \<exists>s. job_run i Pending tr = Some s \<Longrightarrow>
   (\<And>ev i s. ev \<in> set evs \<Longrightarrow> job_step i s ev = Some s) \<Longrightarrow>
   \<forall>i. \<exists>s. job_run i Pending (tr @ evs) = Some s"
  using job_run_neutral[of evs] by metis

lemma delete_dom: "fst ` set (AList.delete i tids) = fst ` set tids - {i}"
  by (induction tids) auto

text \<open>A terminal line for an active job moves it out of \<open>Submitted\<close> as the pop removes it.\<close>

lemma coherent_removed:
  assumes "coherent tids tr" and "i \<in> fst ` set tids"
      and "(\<exists>err. fin = Log ERROR (TaskFailed i err)) \<or> fin = Log INFO (TaskCompleted i)"
  shows "coherent (AList.delete i tids) (tr @ [fin])"
  unfolding coherent_def
proof
  fix j
  from assms(1) obtain s where s: "job_run j Pending tr = Some s"
    "s = Submitted \<longleftrightarrow> j \<in> fst ` set tids"
    unfolding coherent_def by blast
  show "\<exists>s. job_run j Pending (tr @ [fin]) = Some s \<and>
            (s = Submitted \<longleftrightarrow> j \<in> fst ` set (AList.delete i tids))"
    unfolding job_run_snoc using s assms(2,3)
    by (cases "j = i") (auto simp: delete_dom)
qed

lemma coherent_in_progress:
  assumes "coherent tids tr" and "i \<in> fst ` set tids"
  shows "coherent tids (tr @ [Log l (TaskInProgress i)])"
  unfolding coherent_def
proof
  fix j
  from assms(1) obtain s where s: "job_run j Pending tr = Some s"
    "s = Submitted \<longleftrightarrow> j \<in> fst ` set tids"
    unfolding coherent_def by blast
  show "\<exists>s. job_run j Pending (tr @ [Log l (TaskInProgress i)]) = Some s \<and>
            (s = Submitted \<longleftrightarrow> j \<in> fst ` set tids)"
    unfolding job_run_snoc using s assms(2) by (cases "j = i") auto
qed


text \<open>A pass of the poll loop keeps trace and dictionary in step.\<close>

lemma poll_jobs_coherent:
  "poll_jobs E snap tids tr = (r, tr') \<Longrightarrow> distinct (map fst snap) \<Longrightarrow>
   fst ` set snap \<subseteq> fst ` set tids \<Longrightarrow> coherent tids tr \<Longrightarrow>
   (\<forall>i. \<exists>s. job_run i Pending tr' = Some s) \<and> (\<forall>tids'. r = Inr tids' \<longrightarrow> coherent tids' tr')"
proof (induction snap arbitrary: tids tr)
  case Nil
  then show ?case by (auto dest: coherent_accepts)
next
  case (Cons p snap)
  obtain i t where p: "p = (i, t)" by (cases p)
  from Cons.prems(3) p have act: "i \<in> fst ` set tids" by simp
  show ?case
  proof (cases rule: poll_job_shape[of E i t tids tr])
    case (malformed ev)
    have "coherent tids (tr @ [TasksGet t, ev])"
      using malformed(3) by (intro coherent_neutral[OF Cons.prems(4)]) auto
    with malformed Cons.prems(1) p show ?thesis by (auto dest: coherent_accepts)
  next
    case (pop_failed ev fin)
    with act show ?thesis by (simp add: map_of_eq_None_iff)
  next
    case (removed ev fin)
    have "coherent tids (tr @ [TasksGet t, ev])"
      using removed(3) by (intro coherent_neutral[OF Cons.prems(4)]) auto
    from coherent_removed[OF this act removed(4)]
    have c: "coherent (AList.delete i tids) (tr @ [TasksGet t, ev, fin])" by simp
    from removed Cons.prems(1) p
    have "poll_jobs E snap (AList.delete i tids) (tr @ [TasksGet t, ev, fin]) = (r, tr')"
      by simp
    moreover have "distinct (map fst snap)" using Cons.prems(2) by simp
    moreover have "fst ` set snap \<subseteq> fst ` set (AList.delete i tids)"
    proof -
      from Cons.prems(2) p have "i \<notin> fst ` set snap" by simp
      with Cons.prems(3) show ?thesis unfolding delete_dom by auto
    qed
    ultimately show ?thesis using c by (rule Cons.IH)
  next
    case (in_progress ev)
    have "coherent tids (tr @ [TasksGet t, ev])"
      using in_progress(2) by (intro coherent_neutral[OF Cons.prems(4)]) auto
    from coherent_in_progress[OF this act, of INFO]
    have c: "coherent tids (tr @ [TasksGet t, ev, Log INFO (TaskInProgress i)])" by simp
    from in_progress Cons.prems(1) p
    have "poll_jobs E snap tids (tr @ [TasksGet t, ev, Log INFO (TaskInProgress i)]) = (r, tr')"
      by simp
    moreover have "distinct (map fst snap)" using Cons.prems(2) by simp
    moreover have "fst ` set snap \<subseteq> fst ` set tids" using Cons.prems(3) by simp
    ultimately show ?thesis using c by (rule Cons.IH)
  qed
qed

lemma poll_loop_coherent:
  "distinct (map fst tids) \<Longrightarrow> coherent tids tr \<Longrightarrow>
   (\<forall>i. \<exists>s. job_run i Pending (loop_trace (poll_loop fuel E tids tr)) = Some s) \<and>
   ((\<forall>e tr'. poll_loop fuel E tids tr \<noteq> Aborted e tr') \<longrightarrow>
      coherent (loop_active (poll_loop fuel E tids tr)) (loop_trace (poll_loop fuel E tids tr)))"
proof (induction fuel E tids tr rule: poll_loop.induct)
  case (1 fuel E tr)
  then show ?case by (auto dest: coherent_accepts)
next
  case (2 E j js tr)
  then show ?case by (auto dest: coherent_accepts)
next
  case (3 fuel E j js tr)
  obtain r tr1 where c: "poll_cycle E (j # js) tr = (r, tr1)"
    by (cases "poll_cycle E (j # js) tr")
  then have pj: "poll_jobs E (j # js) (j # js) (tr @ [Sleep 10]) = (r, tr1)"
    by (simp add: poll_cycle_def)
  have "coherent (j # js) (tr @ [Sleep 10])"
    by (intro coherent_neutral[OF "3.prems"(2)]) auto
  from poll_jobs_coherent[OF pj "3.prems"(1) subset_refl this]
  have acc: "\<forall>i. \<exists>s. job_run i Pending tr1 = Some s"
    and coh: "\<forall>tids'. r = Inr tids' \<longrightarrow> coherent tids' tr1"
    by blast+
  show ?case
  proof (cases r)
    case (Inl e)
    with c acc show ?thesis by simp
  next
    case (Inr tids1)
    with c "3.prems"(1) have "distinct (map fst tids1)"
      using poll_cycle_distinct by blast
    moreover from coh Inr have "coherent tids1 tr1" by blast
    ultimately show ?thesis
      using "3.IH"[OF c[symmetric, unfolded Inr] refl] c Inr by simp
  qed
qed

lemma migrate_indices_coherent:
  assumes sp: "submit_phase E path [] = (Inr tids, tr)" and coh: "coherent tids tr"
  shows "\<exists>s. job_run i Pending (run_trace (migrate_indices fuel E path)) = Some s
           \<and> (\<not> halted (migrate_indices fuel E path) \<longrightarrow>
                (s = Submitted \<longleftrightarrow> i \<in> fst ` set (run_active (migrate_indices fuel E path))))
           \<and> distinct (map fst (run_active (migrate_indices fuel E path)))"
proof -
  have d: "distinct (map fst tids)" using submit_phase_distinct[OF sp] .
  note lc = poll_loop_coherent[OF d coh, of fuel E]
  note ld = poll_loop_distinct[OF d, of fuel E tr]
  show ?thesis
  proof (cases "poll_loop fuel E tids tr")
    case (Finished tr1)
    with lc have "coherent [] tr1" by simp
    then have "coherent [] (tr1 @ [Log INFO (MigrationCompleted (clock E tr1 - clock E []))])"
      by (rule coherent_neutral) auto
    with Finished sp show ?thesis
      by (auto simp: migrate_indices_def coherent_def)
  next
    case (Aborted e tr1)
    with lc have "\<forall>i. \<exists>s. job_run i Pending tr1 = Some s" by simp
    then have "\<forall>i. \<exists>s. job_run i Pending (tr1 @ [Log ERROR (MigrationFailed e)]) = Some s"
      by (rule accepts_neutral) auto
    with Aborted sp show ?thesis
      by (simp add: migrate_indices_def halted_def)
  next
    case (Unfinished tids1 tr1)
    with lc have "coherent tids1 tr1" by simp
    with Unfinished sp ld show ?thesis
      by (auto simp: migrate_indices_def coherent_def)
  qed
qed

lemma migrate_indices_early_abort:
  assumes sp: "submit_phase E path [] = (Inl e, tr)"
      and acc: "\<forall>i. \<exists>s. job_run i Pending tr = Some s"
  shows "\<exists>s. job_run i Pending (run_trace (migrate_indices fuel E path)) = Some s
           \<and> (\<not> halted (migrate_indices fuel E path) \<longrightarrow>
                (s = Submitted \<longleftrightarrow> i \<in> fst ` set (run_active (migrate_indices fuel E path))))
           \<and> distinct (map fst (run_active (migrate_indices fuel E path)))"
proof -
  from acc have "\<forall>i. \<exists>s. job_run i Pending (tr @ [Log ERROR (MigrationFailed e)]) = Some s"
    by (rule accepts_neutral) auto
  with sp show ?thesis by (simp add: migrate_indices_def halted_def)
qed

lemma counting_run:
  "migrate_indices 0 counting_env ''config.yml'' =
     Polling [(''logs-2023'', PStr ''task-2'')]
      [Log INFO (LoadedConfig ''config.yml''),
       Log INFO (ClientInitialized (PList [PStr ''https://target:9200''])),
       Log INFO (AttemptReindex ''logs-2023'' ''https://source:9200'' ''logs-archive''),
       Reindex (reindex_body ''https://source:9200'' ''u'' ''p'' ''logs-2023'' ''logs-archive'')
         False reindex_params,
       Log INFO (ReindexStarted ''logs-2023'' ''logs-archive'' (PStr ''task-1'')),
       Log INFO (AttemptReindex ''logs-2023'' ''https://source:9200'' ''logs-archive''),
       Reindex (reindex_body ''https://source:9200'' ''u'' ''p'' ''logs-2023'' ''logs-archive'')
         False reindex_params,
       Log INFO (ReindexStarted ''logs-2023'' ''logs-archive'' (PStr ''task-2''))]"
  by (simp add: run_defs counting_env_def)

section \<open>The claims\<close>









text \<open>
  C5, as amended. For a configuration whose source indices are pairwise distinct, the
  trace of a run, at every stage, is a legal history of every job: a job becomes
  \<open>Submitted\<close> once, from \<open>Pending\<close>, by a started submission with a truthy task id; it
  is reported in progress, completed or failed only while \<open>Submitted\<close>; and after its
  completion or failure nothing more happens to it. Unless the run was halted, the jobs
  the trace leaves \<open>Submitted\<close> are exactly the entries of the active set, which holds
  at most one task id per source index.
\<close>

theorem job_lifecycle:
  assumes "read_yaml E path = Inr cfg" and "source_indices cfg = Some idxs" and "distinct idxs"
  shows "\<exists>s. job_run i Pending (run_trace (migrate_indices fuel E path)) = Some s
           \<and> (\<not> halted (migrate_indices fuel E path) \<longrightarrow>
                (s = Submitted \<longleftrightarrow> i \<in> fst ` set (run_active (migrate_indices fuel E path))))
           \<and> distinct (map fst (run_active (migrate_indices fuel E path)))"
proof (cases rule: submit_phase_shape[of E path "[]"])
  case (load_failed e)
  with assms(1) show ?thesis by simp
next
  case (client_failed cfg' e)
  have "\<forall>i. \<exists>s. job_run i Pending
          ([] @ [Log INFO (LoadedConfig path), Log ERROR (ClientInitFailed e)]) = Some s"
    by (rule accepts_neutral) auto
  with migrate_indices_early_abort[OF client_failed(2)] show ?thesis by simp
next
  case (no_indices cfg' hosts)
  with assms(1,2) show ?thesis by simp
next
  case (submitting cfg' hosts idxs')
  with assms(1,2) have eq: "cfg' = cfg" "idxs' = idxs" by simp_all
  let ?tr0 = "[Log INFO (LoadedConfig path), Log INFO (ClientInitialized hosts)]"
  obtain r tr where sl: "submit_loop E cfg idxs [] ?tr0 = (r, tr)"
    by (cases "submit_loop E cfg idxs [] ?tr0")
  have base: "\<forall>i. job_run i Pending ?tr0 = Some (if i \<in> fst ` set [] then Submitted else Pending)"
    by simp
  from submit_loop_coherent[OF sl assms(3) _ base]
  have acc: "\<forall>i. \<exists>s. job_run i Pending tr = Some s"
    and coh: "\<forall>tids'. r = Inr tids' \<longrightarrow>
      (\<forall>i. job_run i Pending tr = Some (if i \<in> fst ` set tids' then Submitted else Pending))"
    by simp_all
  from submitting(3) eq sl have sp: "submit_phase E path [] = (r, tr)" by simp
  show ?thesis
  proof (cases r)
    case (Inl e)
    with sp acc migrate_indices_early_abort show ?thesis by blast
  next
    case (Inr tids)
    with coh have "coherent tids tr" by (simp add: coherent_def)
    with sp Inr migrate_indices_coherent show ?thesis by blast
  qed
qed

theorem job_lifecycle_witness:
  "(\<exists>s. job_run ''logs-2024'' Pending (run_trace (migrate_indices 2 scenario_env ''config.yml'')) = Some s
       \<and> (\<not> halted (migrate_indices 2 scenario_env ''config.yml'') \<longrightarrow>
            (s = Submitted \<longleftrightarrow>
               ''logs-2024'' \<in> fst ` set (run_active (migrate_indices 2 scenario_env ''config.yml''))))
       \<and> distinct (map fst (run_active (migrate_indices 2 scenario_env ''config.yml''))))
   \<and> job_run ''logs-2024'' Pending (run_trace (migrate_indices 2 scenario_env ''config.yml'')) = Some Failed
   \<and> job_run ''logs-2023'' Pending (run_trace (migrate_indices 2 scenario_env ''config.yml'')) = Some Completed"
proof -
  have "job_run ''logs-2024'' Pending (run_trace (migrate_indices 2 scenario_env ''config.yml'')) = Some Failed"
    "job_run ''logs-2023'' Pending (run_trace (migrate_indices 2 scenario_env ''config.yml'')) = Some Completed"
    by (simp_all add: scenario_run scenario_submit_trace_def scenario_first_pass_def)
  with job_lifecycle[of scenario_env "''config.yml''" sample_config "[''logs-2023'', ''logs-2024'']"
        "''logs-2024''" 2]
  show ?thesis by simp
qed

text \<open>
  The claim as stated fails for a configuration that lists a source index twice: both
  submissions are started, two task ids are recorded for the index one after the other,
  and the first is overwritten, so its task is never polled.
\<close>

theorem job_lifecycle_counterexample:
  "source_indices duplicate_config = Some [''logs-2023'', ''logs-2023'']
   \<and> migrate_indices 0 counting_env ''config.yml'' =
     Polling [(''logs-2023'', PStr ''task-2'')]
      [Log INFO (LoadedConfig ''config.yml''),
       Log INFO (ClientInitialized (PList [PStr ''https://target:9200''])),
       Log INFO (AttemptReindex ''logs-2023'' ''https://source:9200'' ''logs-archive''),
       Reindex (reindex_body ''https://source:9200'' ''u'' ''p'' ''logs-2023'' ''logs-archive'')
         False reindex_params,
       Log INFO (ReindexStarted ''logs-2023'' ''logs-archive'' (PStr ''task-1'')),
       Log INFO (AttemptReindex ''logs-2023'' ''https://source:9200'' ''logs-archive''),
       Reindex (reindex_body ''https://source:9200'' ''u'' ''p'' ''logs-2023'' ''logs-archive'')
         False reindex_params,
       Log INFO (ReindexStarted ''logs-2023'' ''logs-archive'' (PStr ''task-2''))]
   \<and> job_run ''logs-2023'' Pending (run_trace (migrate_indices 0 counting_env ''config.yml'')) = None
   \<and> PStr ''task-1'' \<notin> set (queries (run_trace (migrate_indices 5 counting_env ''config.yml'')))"
proof -
  have "job_run ''logs-2023'' Pending (run_trace (migrate_indices 0 counting_env ''config.yml'')) = None"
    by (simp add: counting_run)
  moreover have "PStr ''task-1'' \<notin> set (queries (run_trace (migrate_indices 5 counting_env ''config.yml'')))"
  proof -
    have "submit_phase counting_env ''config.yml'' [] =
            (Inr [(''logs-2023'', PStr ''task-2'')], run_trace (migrate_indices 0 counting_env ''config.yml''))"
      unfolding counting_run by (simp add: run_defs counting_env_def)
    from migrate_indices_poll_facts(2)[OF this, of 5] show ?thesis by auto
  qed
  ultimately show ?thesis using counting_run by simp
qed

text \<open>
  C6, as amended. For a configuration that lists \<open>N\<close> pairwise distinct source indices,
  if all \<open>N\<close> submit calls succeed and each returns a truthy task id, the active set at
  the start of the poll phase has exactly \<open>N\<close> entries: one per index, in the order of
  the configuration.
\<close>

theorem active_set_size:
  assumes "read_yaml E path = Inr cfg" and "es_target_config cfg = Some tc"
      and "new_client E tc = Inr u" and "map_of tc ''hosts'' = Some hosts"
      and "source_indices cfg = Some idxs"
      and "target_index cfg = Some target" and "es_source_remote cfg = Some remote"
      and "map_of remote ''host'' = Some host"
      and "map_of remote ''username'' = Some username"
      and "map_of remote ''password'' = Some password"
      and "distinct idxs"
      and "\<forall>h i. i \<in> set idxs \<longrightarrow>
             (\<exists>d t. reindex E h (reindex_body host username password i target) False reindex_params
                      = Inr (PDict d) \<and> map_of d ''task'' = Some t \<and> truthy t)"
  shows "\<exists>tids tr. submit_phase E path [] = (Inr tids, tr) \<and> length tids = length idxs
           \<and> map fst tids = idxs"
proof -
  let ?tr0 = "[Log INFO (LoadedConfig path), Log INFO (ClientInitialized hosts)]"
  from submit_loop_all_started[OF assms(6-10) assms(12), of idxs "[]" ?tr0] assms(11)
  obtain tids tr where
    sl: "submit_loop E cfg idxs [] ?tr0 = (Inr tids, tr)" "map fst tids = idxs"
    by auto
  from sl(2) have "length tids = length idxs" by (metis length_map)
  with sl submit_phase_ok[OF assms(1-5), of "[]"] show ?thesis by simp
qed

theorem active_set_size_witness:
  "\<exists>tids tr. submit_phase scenario_env ''config.yml'' [] = (Inr tids, tr) \<and> length tids = 2
      \<and> map fst tids = [''logs-2023'', ''logs-2024'']"
proof -
  have ok: "\<forall>h i. i \<in> set [''logs-2023'', ''logs-2024''] \<longrightarrow>
             (\<exists>d t. reindex scenario_env h
                       (reindex_body ''https://source:9200'' ''u'' ''p'' i ''logs-archive'')
                       False reindex_params
                      = Inr (PDict d) \<and> map_of d ''task'' = Some t \<and> truthy t)"
    by (simp add: scenario_env_def reindex_body_def)
  show ?thesis
    using active_set_size[where E = scenario_env and path = "''config.yml''"
        and cfg = sample_config and tc = "[(''hosts'', PList [PStr ''https://target:9200''])]"
        and u = "()" and hosts = "PList [PStr ''https://target:9200'']"
        and idxs = "[''logs-2023'', ''logs-2024'']" and target = "''logs-archive''"
        and remote = "[(''host'', ''https://source:9200''), (''username'', ''u''), (''password'', ''p'')]"
        and host = "''https://source:9200''" and username = "''u''" and password = "''p''",
        OF _ _ _ _ _ _ _ _ _ _ _ ok]
    by (simp add: numeral_2_eq_2)
qed

text \<open>
  The claim as stated fails in two ways, both with every submit call succeeding. A
  configuration that lists the same index twice gives one entry for two submissions: the
  second task id replaces the first. And a submission that returns a falsy task id (here
  the empty string) gives no entry at all.
\<close>

theorem active_set_size_counterexample:
  "source_indices duplicate_config = Some [''logs-2023'', ''logs-2023'']
   \<and> submit_phase counting_env ''config.yml'' [] =
     (Inr [(''logs-2023'', PStr ''task-2'')],
      [Log INFO (LoadedConfig ''config.yml''),
       Log INFO (ClientInitialized (PList [PStr ''https://target:9200''])),
       Log INFO (AttemptReindex ''logs-2023'' ''https://source:9200'' ''logs-archive''),
       Reindex (reindex_body ''https://source:9200'' ''u'' ''p'' ''logs-2023'' ''logs-archive'')
         False reindex_params,
       Log INFO (ReindexStarted ''logs-2023'' ''logs-archive'' (PStr ''task-1'')),
       Log INFO (AttemptReindex ''logs-2023'' ''https://source:9200'' ''logs-archive''),
       Reindex (reindex_body ''https://source:9200'' ''u'' ''p'' ''logs-2023'' ''logs-archive'')
         False reindex_params,
       Log INFO (ReindexStarted ''logs-2023'' ''logs-archive'' (PStr ''task-2''))])
   \<and> source_indices sample_config = Some [''logs-2023'', ''logs-2024'']
   \<and> submit_phase empty_id_env ''config.yml'' [] =
     (Inr [],
      [Log INFO (LoadedConfig ''config.yml''),
       Log INFO (ClientInitialized (PList [PStr ''https://target:9200''])),
       Log INFO (AttemptReindex ''logs-2023'' ''https://source:9200'' ''logs-archive''),
       Reindex (reindex_body ''https://source:9200'' ''u'' ''p'' ''logs-2023'' ''logs-archive'')
         False reindex_params,
       Log INFO (ReindexStarted ''logs-2023'' ''logs-archive'' (PStr [])),
       Log INFO (AttemptReindex ''logs-2024'' ''https://source:9200'' ''logs-archive''),
       Reindex (reindex_body ''https://source:9200'' ''u'' ''p'' ''logs-2024'' ''logs-archive'')
         False reindex_params,
       Log INFO (ReindexStarted ''logs-2024'' ''logs-archive'' (PStr []))])
   \<and> length (run_active (migrate_indices 0 counting_env ''config.yml'')) = 1
   \<and> length (run_active (migrate_indices 0 empty_id_env ''config.yml'')) = 0"
  by (simp add: run_defs counting_env_def empty_id_env_def)




text \<open>
  C8. Every submit call of a run passes a body that holds the shared remote credentials
  (host, username, password), the job's source index and the one shared destination
  index, with \<^verbatim>\<open>wait_for_completion=False\<close> (asynchronous execution) and the parameter
  \<^verbatim>\<open>requests_per_second = "-1"\<close> (the client's notation for an unlimited rate); the
  calls are issued for the configured indices, in order. A submission whose response
  carries a \<^verbatim>\<open>task\<close> field returns that field as the job id.
\<close>

theorem submit_call_arguments:
  assumes "read_yaml E path = Inr cfg" and "es_target_config cfg = Some tc"
      and "new_client E tc = Inr u" and "map_of tc ''hosts'' = Some hosts"
      and "source_indices cfg = Some idxs"
      and "target_index cfg = Some target" and "es_source_remote cfg = Some remote"
      and "map_of remote ''host'' = Some host"
      and "map_of remote ''username'' = Some username"
      and "map_of remote ''password'' = Some password"
  shows "reindex_calls (run_trace (migrate_indices fuel E path)) =
           map (\<lambda>i. (PDict [(''source'', PDict [(''remote'', PDict [(''host'', PStr host),
                                                                    (''username'', PStr username),
                                                                    (''password'', PStr password)]),
                                              (''index'', PStr i)]),
                            (''dest'', PDict [(''index'', PStr target)])],
                     False, [(''requests_per_second'', ''-1'')])) idxs
         \<and> (\<forall>tr i d t.
               reindex E (tr @ [Log INFO (AttemptReindex i host target)])
                 (reindex_body host username password i target) False reindex_params = Inr (PDict d)
               \<and> map_of d ''task'' = Some t
               \<longrightarrow> fst (start_reindex_task E i target remote tr) = Inr t)"
proof -
  let ?tr0 = "[Log INFO (LoadedConfig path), Log INFO (ClientInitialized hosts)]"
  from submit_loop_calls[OF assms(6-10), of E idxs "[]" ?tr0] obtain tids tr where
    sl: "submit_loop E cfg idxs [] ?tr0 = (Inr tids, tr)"
        "reindex_calls tr = reindex_calls ?tr0 @
           map (\<lambda>i. (reindex_body host username password i target, False, reindex_params)) idxs"
    by blast
  with submit_phase_ok[OF assms(1-5), of "[]"] have "submit_phase E path [] = (Inr tids, tr)"
    by simp
  from migrate_indices_calls[OF this, of fuel] sl(2)
  have "reindex_calls (run_trace (migrate_indices fuel E path)) =
          map (\<lambda>i. (reindex_body host username password i target, False, reindex_params)) idxs"
    by simp
  moreover have "fst (start_reindex_task E i target remote tr) = Inr t"
    if "reindex E (tr @ [Log INFO (AttemptReindex i host target)])
          (reindex_body host username password i target) False reindex_params = Inr (PDict d)"
       "map_of d ''task'' = Some t" for tr i d t
    using that start_reindex_task_eq[OF assms(8-10), of E i target tr]
    by (simp add: dict_getitem_def)
  ultimately show ?thesis
    by (simp add: reindex_body_def reindex_params_def)
qed

theorem submit_call_arguments_witness:
  "reindex_calls (run_trace (migrate_indices 2 scenario_env ''config.yml'')) =
     [(PDict [(''source'', PDict [(''remote'', PDict [(''host'', PStr ''https://source:9200''),
                                                      (''username'', PStr ''u''),
                                                      (''password'', PStr ''p'')]),
                                (''index'', PStr ''logs-2023'')]),
              (''dest'', PDict [(''index'', PStr ''logs-archive'')])],
       False, [(''requests_per_second'', ''-1'')]),
      (PDict [(''source'', PDict [(''remote'', PDict [(''host'', PStr ''https://source:9200''),
                                                      (''username'', PStr ''u''),
                                                      (''password'', PStr ''p'')]),
                                (''index'', PStr ''logs-2024'')]),
              (''dest'', PDict [(''index'', PStr ''logs-archive'')])],
       False, [(''requests_per_second'', ''-1'')])]
   \<and> fst (start_reindex_task scenario_env ''logs-2023'' ''logs-archive''
           [(''host'', ''https://source:9200''), (''username'', ''u''), (''password'', ''p'')] [])
       = Inr (PStr ''task-1'')"
proof -
  have r: "read_yaml scenario_env ''config.yml'' = Inr sample_config"
    and c: "new_client scenario_env [(''hosts'', PList [PStr ''https://target:9200''])] = Inr ()"
    by (simp_all add: scenario_env_def)
  have cfg: "es_target_config sample_config = Some [(''hosts'', PList [PStr ''https://target:9200''])]"
    "map_of [(''hosts'', PList [PStr ''https://target:9200''])] ''hosts'' =
       Some (PList [PStr ''https://target:9200''])"
    "source_indices sample_config = Some [''logs-2023'', ''logs-2024'']"
    "target_index sample_config = Some ''logs-archive''"
    "es_source_remote sample_config =
       Some [(''host'', ''https://source:9200''), (''username'', ''u''), (''password'', ''p'')]"
    by (simp_all add: sample_config_def)
  have rem: "map_of [(''host'', ''https://source:9200''), (''username'', ''u''), (''password'', ''p'')]
               ''host'' = Some ''https://source:9200''"
    "map_of [(''host'', ''https://source:9200''), (''username'', ''u''), (''password'', ''p'')]
               ''username'' = Some ''u''"
    "map_of [(''host'', ''https://source:9200''), (''username'', ''u''), (''password'', ''p'')]
               ''password'' = Some ''p''"
    by simp_all
  note inst = submit_call_arguments[OF r cfg(1) c cfg(2-5) rem, of 2]
  have "fst (start_reindex_task scenario_env ''logs-2023'' ''logs-archive''
           [(''host'', ''https://source:9200''), (''username'', ''u''), (''password'', ''p'')] [])
       = Inr (PStr ''task-1'')"
    by (rule inst[THEN conjunct2, rule_format, of "[]" "''logs-2023''"
                  "[(''task'', PStr ''task-1'')]" "PStr ''task-1''"])
       (simp add: scenario_env_def)
  with inst[THEN conjunct1] show ?thesis by simp
qed

text \<open>
  C9. If every status the client returns carries a \<^verbatim>\<open>completed\<close> field, indexing
  \<^verbatim>\<open>status['completed']\<close> never fails: the poll step of an active job returns normally,
  and once the submit phase is through the run is never halted. Without that
  precondition: when, in any pass of the loop and at any place of the snapshot, the
  status returned for a job lacks the field, the poll step raises \<^verbatim>\<open>KeyError\<close>; the
  exception leaves the pass and the loop (the jobs after it are not polled), only the
  run-level handler logs it, and the run returns without the summary line.
\<close>

theorem missing_completed_field:
  "((\<forall>h t d. tasks_get E h t = Inr (PDict d) \<longrightarrow> map_of d ''completed'' \<noteq> None) \<longrightarrow>
      (map_of tids index \<noteq> None \<longrightarrow>
         (\<exists>tids' tr'. poll_job E index task_id tids tr = (Inr tids', tr')))
      \<and> (submit_phase E path [] = (Inr tids0, tr0) \<longrightarrow> \<not> halted (migrate_indices fuel E path)))
   \<and> (submit_phase E path [] = (Inr tids0, tr0)
      \<and> poll_loop k E tids0 tr0 = Unfinished (pre @ (index, task_id) # post) tr
      \<and> poll_jobs E pre (pre @ (index, task_id) # post) (tr @ [Sleep 10]) = (Inr tids1, tr1)
      \<and> tasks_get E tr1 task_id = Inr (PDict d) \<and> map_of d ''completed'' = None
      \<and> k < fuel \<longrightarrow>
        poll_job E index task_id tids1 tr1 =
          (Inl (KeyError ''completed''),
           tr1 @ [TasksGet task_id, Log INFO (CheckedStatus task_id False)])
        \<and> migrate_indices fuel E path =
            Returned (tr1 @ [TasksGet task_id, Log INFO (CheckedStatus task_id False),
                             Log ERROR (MigrationFailed (KeyError ''completed''))])
        \<and> \<not> list_ex is_summary (run_trace (migrate_indices fuel E path)))"
proof (intro conjI impI)
  assume wf: "\<forall>h t d. tasks_get E h t = Inr (PDict d) \<longrightarrow> map_of d ''completed'' \<noteq> None"
  show "\<exists>tids' tr'. poll_job E index task_id tids tr = (Inr tids', tr')"
    if "map_of tids index \<noteq> None"
    using poll_job_no_abort[OF wf that] .
  show "\<not> halted (migrate_indices fuel E path)" if "submit_phase E path [] = (Inr tids0, tr0)"
    using migrate_indices_not_halted(1)[OF that wf] .
next
  assume a: "submit_phase E path [] = (Inr tids0, tr0)
      \<and> poll_loop k E tids0 tr0 = Unfinished (pre @ (index, task_id) # post) tr
      \<and> poll_jobs E pre (pre @ (index, task_id) # post) (tr @ [Sleep 10]) = (Inr tids1, tr1)
      \<and> tasks_get E tr1 task_id = Inr (PDict d) \<and> map_of d ''completed'' = None
      \<and> k < fuel"
  let ?tids = "pre @ (index, task_id) # post"
  let ?tr = "tr1 @ [TasksGet task_id, Log INFO (CheckedStatus task_id False)]"
  from a have pj: "poll_job E index task_id tids1 tr1 = (Inl (KeyError ''completed''), ?tr)"
    using poll_job_malformed by blast
  then show "poll_job E index task_id tids1 tr1 = (Inl (KeyError ''completed''), ?tr)" .
  from a pj have "poll_cycle E ?tids tr = (Inl (KeyError ''completed''), ?tr)"
    by (simp add: poll_cycle_def poll_jobs_append)
  then have ab: "poll_loop (Suc n) E ?tids tr = Aborted (KeyError ''completed'') ?tr" for n
    by (simp add: poll_loop_step)
  from a obtain n where fuel: "fuel = k + Suc n"
    by (metis add_Suc_right less_imp_Suc_add)
  from a have "poll_loop (k + Suc n) E tids0 tr0 = poll_loop (Suc n) E ?tids tr"
    using poll_loop_more_fuel(1) by blast
  with ab fuel have l: "poll_loop fuel E tids0 tr0 = Aborted (KeyError ''completed'') ?tr"
    by simp
  from a have sp: "submit_phase E path [] = (Inr tids0, tr0)" by simp
  from migrate_indices_aborted[OF sp l]
  show "migrate_indices fuel E path =
          Returned (tr1 @ [TasksGet task_id, Log INFO (CheckedStatus task_id False),
                           Log ERROR (MigrationFailed (KeyError ''completed''))])"
    and "\<not> list_ex is_summary (run_trace (migrate_indices fuel E path))"
    by simp_all
qed

theorem missing_completed_field_witness:
  "\<not> halted (migrate_indices 2 scenario_env ''config.yml'')
   \<and> migrate_indices 2 malformed_status_env ''config.yml'' =
       Returned (scenario_submit_trace @ scenario_first_pass @
         [Sleep 10,
          TasksGet (PStr ''task-1''), Log INFO (CheckedStatus (PStr ''task-1'') False),
          Log INFO (TaskInProgress ''logs-2023''),
          TasksGet (PStr ''task-2''), Log INFO (CheckedStatus (PStr ''task-2'') False),
          Log ERROR (MigrationFailed (KeyError ''completed''))])
   \<and> \<not> list_ex is_summary (run_trace (migrate_indices 2 malformed_status_env ''config.yml''))"
proof -
  have wf: "\<forall>h t d. tasks_get scenario_env h t = Inr (PDict d) \<longrightarrow> map_of d ''completed'' \<noteq> None"
    by (auto simp: scenario_env_def)
  have pre: "poll_jobs malformed_status_env [(''logs-2023'', PStr ''task-1'')]
               ([(''logs-2023'', PStr ''task-1'')] @ (''logs-2024'', PStr ''task-2'') # [])
               ((scenario_submit_trace @ scenario_first_pass) @ [Sleep 10]) =
             (Inr scenario_jobs,
              scenario_submit_trace @ scenario_first_pass @
                [Sleep 10, TasksGet (PStr ''task-1''),
                 Log INFO (CheckedStatus (PStr ''task-1'') False),
                 Log INFO (TaskInProgress ''logs-2023'')])"
    by (simp add: scenario_jobs_def poll_job_def check_task_status_def dict_getitem_def dict_get_def)
  have bad: "tasks_get malformed_status_env
               (scenario_submit_trace @ scenario_first_pass @
                [Sleep 10, TasksGet (PStr ''task-1''),
                 Log INFO (CheckedStatus (PStr ''task-1'') False),
                 Log INFO (TaskInProgress ''logs-2023'')]) (PStr ''task-2'') =
             Inr (PDict [(''task'', PDict [])])"
    by simp
  have first: "poll_loop 1 malformed_status_env scenario_jobs scenario_submit_trace =
         Unfinished ([(''logs-2023'', PStr ''task-1'')] @ (''logs-2024'', PStr ''task-2'') # [])
           (scenario_submit_trace @ scenario_first_pass)"
    using malformed_first_pass by (simp add: scenario_jobs_def)
  from missing_completed_field[where E = scenario_env and path = "''config.yml''"
      and ?tids0.0 = scenario_jobs and ?tr0.0 = scenario_submit_trace and fuel = 2,
      THEN conjunct1, THEN mp, OF wf, THEN conjunct2, THEN mp, OF scenario_submit_phase(1)]
  have a: "\<not> halted (migrate_indices 2 scenario_env ''config.yml'')" .
  have prem: "submit_phase malformed_status_env ''config.yml'' [] =
          (Inr scenario_jobs, scenario_submit_trace)
      \<and> poll_loop 1 malformed_status_env scenario_jobs scenario_submit_trace =
          Unfinished ([(''logs-2023'', PStr ''task-1'')] @ (''logs-2024'', PStr ''task-2'') # [])
            (scenario_submit_trace @ scenario_first_pass)
      \<and> poll_jobs malformed_status_env [(''logs-2023'', PStr ''task-1'')]
               ([(''logs-2023'', PStr ''task-1'')] @ (''logs-2024'', PStr ''task-2'') # [])
               ((scenario_submit_trace @ scenario_first_pass) @ [Sleep 10]) =
             (Inr scenario_jobs,
              scenario_submit_trace @ scenario_first_pass @
                [Sleep 10, TasksGet (PStr ''task-1''),
                 Log INFO (CheckedStatus (PStr ''task-1'') False),
                 Log INFO (TaskInProgress ''logs-2023'')])
      \<and> tasks_get malformed_status_env
               (scenario_submit_trace @ scenario_first_pass @
                [Sleep 10, TasksGet (PStr ''task-1''),
                 Log INFO (CheckedStatus (PStr ''task-1'') False),
                 Log INFO (TaskInProgress ''logs-2023'')]) (PStr ''task-2'') =
             Inr (PDict [(''task'', PDict [])])
      \<and> map_of [(''task'', PDict [])] ''completed'' = None
      \<and> (1::nat) < 2"
    by (intro conjI scenario_submit_phase(2) first pre bad) simp_all
  from missing_completed_field[THEN conjunct2, THEN mp, OF prem]
  have b: "migrate_indices 2 malformed_status_env ''config.yml'' =
       Returned ((scenario_submit_trace @ scenario_first_pass @
                [Sleep 10, TasksGet (PStr ''task-1''),
                 Log INFO (CheckedStatus (PStr ''task-1'') False),
                 Log INFO (TaskInProgress ''logs-2023'')]) @
         [TasksGet (PStr ''task-2''), Log INFO (CheckedStatus (PStr ''task-2'') False),
          Log ERROR (MigrationFailed (KeyError ''completed''))])"
    and c: "\<not> list_ex is_summary (run_trace (migrate_indices 2 malformed_status_env ''config.yml''))"
    by blast+
  from b have "migrate_indices 2 malformed_status_env ''config.yml'' =
       Returned (scenario_submit_trace @ scenario_first_pass @
         [Sleep 10,
          TasksGet (PStr ''task-1''), Log INFO (CheckedStatus (PStr ''task-1'') False),
          Log INFO (TaskInProgress ''logs-2023''),
          TasksGet (PStr ''task-2''), Log INFO (CheckedStatus (PStr ''task-2'') False),
          Log ERROR (MigrationFailed (KeyError ''completed''))])"
    by simp
  with a c show ?thesis by blast
qed

text \<open>
  C10. A submit call that succeeds with a falsy job id (the empty string, for example)
  excludes the job exactly as a failed submission does: the submission is logged as
  started, but \<^verbatim>\<open>if task_id:\<close> leaves \<^verbatim>\<open>task_ids\<close> as it was, so the index has no entry
  in the active set at any stage of the run, no status query is issued for it and no
  line of the poll phase reports an outcome for it.
\<close>

theorem falsy_job_id_is_excluded:
  assumes "read_yaml E path = Inr cfg" and "es_target_config cfg = Some tc"
      and "new_client E tc = Inr u" and "map_of tc ''hosts'' = Some hosts"
      and "source_indices cfg = Some idxs"
      and "target_index cfg = Some target" and "es_source_remote cfg = Some remote"
      and "map_of remote ''host'' = Some host"
      and "map_of remote ''username'' = Some username"
      and "map_of remote ''password'' = Some password"
      and "index \<in> set idxs"
      and falsy: "\<forall>h. \<exists>d t. reindex E h (reindex_body host username password index target)
                          False reindex_params = Inr (PDict d)
                        \<and> map_of d ''task'' = Some t \<and> \<not> truthy t"
  shows "(\<exists>t. \<not> truthy t \<and> Log INFO (ReindexStarted index target t)
                \<in> set (run_trace (migrate_indices fuel E path)))
       \<and> index \<notin> fst ` set (run_active (migrate_indices fuel E path))
       \<and> index \<notin> set (polled_indices (run_trace (migrate_indices fuel E path)))
       \<and> (\<exists>tids tr. submit_phase E path [] = (Inr tids, tr) \<and> index \<notin> fst ` set tids
             \<and> set (queries (run_trace (migrate_indices fuel E path))) \<subseteq> snd ` set tids)
       \<and> (\<forall>rest tids tr. \<exists>t. \<not> truthy t \<and>
             submit_loop E cfg (index # rest) tids tr =
               submit_loop E cfg rest tids
                 (tr @ [Log INFO (AttemptReindex index host target),
                        Reindex (reindex_body host username password index target) False
                          reindex_params,
                        Log INFO (ReindexStarted index target t)]))"
proof -
  let ?tr0 = "[Log INFO (LoadedConfig path), Log INFO (ClientInitialized hosts)]"
  from submit_loop_calls[OF assms(6-10), of E idxs "[]" ?tr0] obtain tids tr where
    sl: "submit_loop E cfg idxs [] ?tr0 = (Inr tids, tr)"
    by blast
  with submit_phase_ok[OF assms(1-5), of "[]"] have sp: "submit_phase E path [] = (Inr tids, tr)"
    by simp
  note facts = migrate_indices_poll_facts[OF sp, of fuel]
  have never: "\<forall>h response t.
       reindex E h (reindex_body host username password index target) False reindex_params
         = Inr response \<longrightarrow> py_getitem response ''task'' = Inr t \<longrightarrow> \<not> truthy t"
  proof (intro allI impI)
    fix h response t
    assume r: "reindex E h (reindex_body host username password index target) False reindex_params
                 = Inr response"
       and t: "py_getitem response ''task'' = Inr t"
    from falsy obtain d t' where
      "reindex E h (reindex_body host username password index target) False reindex_params
         = Inr (PDict d)" "map_of d ''task'' = Some t'" "\<not> truthy t'"
      by blast
    with r t show "\<not> truthy t" by (auto simp: dict_getitem_def)
  qed
  from submit_loop_no_entry[OF assms(6-10) never sl(1)] have out: "index \<notin> fst ` set tids"
    by simp
  from submit_loop_falsy_logged[OF assms(6-10) falsy assms(11) sl(1)] facts(4)
  have "\<exists>t. \<not> truthy t \<and> Log INFO (ReindexStarted index target t)
                \<in> set (run_trace (migrate_indices fuel E path))"
    by blast
  moreover from out facts(1) have "index \<notin> fst ` set (run_active (migrate_indices fuel E path))"
    by blast
  moreover from out facts(3)
  have "index \<notin> set (polled_indices (run_trace (migrate_indices fuel E path)))"
    by blast
  moreover from sp out facts(2)
  have "\<exists>tids tr. submit_phase E path [] = (Inr tids, tr) \<and> index \<notin> fst ` set tids
            \<and> set (queries (run_trace (migrate_indices fuel E path))) \<subseteq> snd ` set tids"
    by blast
  moreover have "\<exists>t. \<not> truthy t \<and> submit_loop E cfg (index # rest) tids tr =
               submit_loop E cfg rest tids
                 (tr @ [Log INFO (AttemptReindex index host target),
                        Reindex (reindex_body host username password index target) False
                          reindex_params,
                        Log INFO (ReindexStarted index target t)])" for rest tids tr
  proof -
    from falsy obtain d t where r:
      "reindex E (tr @ [Log INFO (AttemptReindex index host target)])
         (reindex_body host username password index target) False reindex_params = Inr (PDict d)"
      "map_of d ''task'' = Some t" "\<not> truthy t"
      by blast
    from submit_loop_falsy_step[OF assms(6-10) r, of rest tids] r(3) show ?thesis by blast
  qed
  ultimately show ?thesis by blast
qed

theorem falsy_job_id_is_excluded_witness:
  "(\<exists>t. \<not> truthy t \<and> Log INFO (ReindexStarted ''logs-2023'' ''logs-archive'' t)
          \<in> set (run_trace (migrate_indices 1 empty_id_env ''config.yml'')))
   \<and> ''logs-2023'' \<notin> fst ` set (run_active (migrate_indices 1 empty_id_env ''config.yml''))
   \<and> ''logs-2023'' \<notin> set (polled_indices (run_trace (migrate_indices 1 empty_id_env ''config.yml'')))"
proof -
  have falsy: "\<forall>h. \<exists>d t. reindex empty_id_env h
                 (reindex_body ''https://source:9200'' ''u'' ''p'' ''logs-2023'' ''logs-archive'')
                 False reindex_params = Inr (PDict d) \<and> map_of d ''task'' = Some t \<and> \<not> truthy t"
    by (simp add: empty_id_env_def)
  show ?thesis
    using falsy_job_id_is_excluded[where E = empty_id_env and path = "''config.yml''"
        and cfg = sample_config and tc = "[(''hosts'', PList [PStr ''https://target:9200''])]"
        and u = "()" and hosts = "PList [PStr ''https://target:9200'']"
        and idxs = "[''logs-2023'', ''logs-2024'']" and target = "''logs-archive''"
        and remote = "[(''host'', ''https://source:9200''), (''username'', ''u''), (''password'', ''p'')]"
        and host = "''https://source:9200''" and username = "''u''" and password = "''p''"
        and index = "''logs-2023''" and fuel = 1,
        OF _ _ _ _ _ _ _ _ _ _ _ falsy]
    by simp
qed

end
